theory Spec2Isabelle
  imports Main
begin

section \<open>Log levels and log entries\<close>

text \<open>
  Modelled from the spec: the file \<^verbatim>\<open>src/log-level.ts\<close> that declares the enum
  \<^verbatim>\<open>LogLevel\<close> is not among the sources. The spec gives the ordered enumeration
  \<open>debug < info < warn < error < fatal\<close>; the tests show that the members are the
  strings \<^verbatim>\<open>'debug'\<close>, ..., \<^verbatim>\<open>'fatal'\<close> (a serialised entry contains
  \<^verbatim>\<open>"level":"info"\<close>), so every member is a non-empty, truthy string.
\<close>

datatype LogLevel = DEBUG | INFO | WARN | ERROR | FATAL

text \<open>\<^verbatim>\<open>Object.values(LogLevel)\<close>: the members in declaration order.\<close>

definition LogLevel_values :: "LogLevel list" where
  "LogLevel_values = [DEBUG, INFO, WARN, ERROR, FATAL]"

text \<open>\<^verbatim>\<open>Array.prototype.indexOf\<close>: the first index of the element, \<open>-1\<close> when absent.\<close>

fun indexOf_from :: "nat \<Rightarrow> 'a list \<Rightarrow> 'a \<Rightarrow> int" where
  "indexOf_from i [] x = - 1"
| "indexOf_from i (y # ys) x = (if y = x then int i else indexOf_from (Suc i) ys x)"

definition indexOf :: "'a list \<Rightarrow> 'a \<Rightarrow> int" where
  "indexOf xs x = indexOf_from 0 xs x"

text \<open>
  \<^verbatim>\<open>BaseTransport.shouldLog\<close> (base.transport.ts). The argument \<open>minLevel\<close> is
  \<^verbatim>\<open>this.options.minLevel\<close>; \<open>None\<close> is \<^verbatim>\<open>undefined\<close>, the only falsy value
  the type admits.
\<close>

definition shouldLog :: "LogLevel option \<Rightarrow> LogLevel \<Rightarrow> bool" where
  "shouldLog minLevel lvl =
     (case minLevel of
        None \<Rightarrow> True
      | Some m \<Rightarrow>
          (let levels = LogLevel_values;
               minLevelIndex = indexOf levels m;
               currentLevelIndex = indexOf levels lvl
           in currentLevelIndex \<ge> minLevelIndex))"

text \<open>The ordinal of a level in the spec's fixed ordering \<open>debug < info < warn < error < fatal\<close>.\<close>

fun spec_ordinal :: "LogLevel \<Rightarrow> nat" where
  "spec_ordinal DEBUG = 0"
| "spec_ordinal INFO = 1"
| "spec_ordinal WARN = 2"
| "spec_ordinal ERROR = 3"
| "spec_ordinal FATAL = 4"

text \<open>
  The string value of a member, and \<^verbatim>\<open>level.toUpperCase()\<close> of it (modelled from the
  spec with the enum, see above).
\<close>

fun level_value :: "LogLevel \<Rightarrow> string" where
  "level_value DEBUG = ''debug''"
| "level_value INFO = ''info''"
| "level_value WARN = ''warn''"
| "level_value ERROR = ''error''"
| "level_value FATAL = ''fatal''"

fun level_toUpperCase :: "LogLevel \<Rightarrow> string" where
  "level_toUpperCase DEBUG = ''DEBUG''"
| "level_toUpperCase INFO = ''INFO''"
| "level_toUpperCase WARN = ''WARN''"
| "level_toUpperCase ERROR = ''ERROR''"
| "level_toUpperCase FATAL = ''FATAL''"

text \<open>
  \<^verbatim>\<open>LogEntry\<close> (base.transport.ts). \<^verbatim>\<open>meta?: any\<close> is a value of an arbitrary type
  \<open>'m\<close>; \<open>None\<close> is an absent field. A present \<open>meta\<close> is taken to be truthy (an
  object), an empty \<open>stackTrace\<close> string is falsy as in JavaScript.
\<close>

record 'm LogEntry =
  timestamp :: string
  level :: LogLevel
  message :: string
  meta :: "'m option"
  stackTrace :: "string option"

subsection \<open>JavaScript truthiness, defaults and option merging\<close>

definition truthy_num :: "nat option \<Rightarrow> bool" where
  "truthy_num v = (case v of None \<Rightarrow> False | Some n \<Rightarrow> n \<noteq> 0)"

definition truthy_str :: "string option \<Rightarrow> bool" where
  "truthy_str v = (case v of None \<Rightarrow> False | Some s \<Rightarrow> s \<noteq> [])"

definition truthy_bool :: "bool option \<Rightarrow> bool" where
  "truthy_bool v = (case v of None \<Rightarrow> False | Some b \<Rightarrow> b)"

text \<open>\<^verbatim>\<open>v || d\<close> on an optional number: the default replaces \<^verbatim>\<open>undefined\<close> and \<open>0\<close>.\<close>

definition num_or :: "nat option \<Rightarrow> nat \<Rightarrow> nat" where
  "num_or v d = (case v of None \<Rightarrow> d | Some n \<Rightarrow> if n = 0 then d else n)"

text \<open>\<^verbatim>\<open>v || d\<close> on an optional string.\<close>

definition str_or :: "string option \<Rightarrow> string \<Rightarrow> string" where
  "str_or v d = (case v of None \<Rightarrow> d | Some s \<Rightarrow> if s = [] then d else s)"

text \<open>
  One key of \<^verbatim>\<open>{ key: d, ...options }\<close>: the default stands only where the caller's
  options have no such key.
\<close>

definition with_default :: "'a \<Rightarrow> 'a option \<Rightarrow> 'a option" where
  "with_default d v = (case v of None \<Rightarrow> Some d | Some x \<Rightarrow> Some x)"

subsection \<open>Library functions the transports call\<close>

text \<open>
  \<^verbatim>\<open>JSON.stringify\<close>, the string decoration of the \<^verbatim>\<open>colors\<close> package and Node's
  \<^verbatim>\<open>path.extname\<close> and \<^verbatim>\<open>path.join\<close> are not code of the repository: they are
  parameters of the model. \<^verbatim>\<open>JSON.stringify\<close> throws on a value it cannot serialise
  (\<open>None\<close>).
\<close>

record 'm Lib =
  JSON_stringify_entry :: "'m LogEntry \<Rightarrow> string option"
  JSON_stringify_meta :: "'m \<Rightarrow> string option"
  JSON_stringify_meta_indent :: "'m \<Rightarrow> string option"
  colors_apply :: "string \<Rightarrow> string \<Rightarrow> string"
  path_extname :: "string \<Rightarrow> string"
  path_join :: "string \<Rightarrow> string \<Rightarrow> string"

text \<open>
  The result of a call \<^verbatim>\<open>transport.log(entry)\<close>: the transport afterwards, the object
  that was passed as \<^verbatim>\<open>entry\<close> afterwards (JavaScript passes the reference, so an
  assignment to a field in the callee would show here), and the exception thrown to the
  caller, if any.
\<close>

record ('s, 'm) log_call =
  transport_after :: 's
  entry_after :: "'m LogEntry"
  thrown :: "string option"

definition returns :: "'s \<Rightarrow> 'm LogEntry \<Rightarrow> ('s, 'm) log_call" where
  "returns st entry = \<lparr>transport_after = st, entry_after = entry, thrown = None\<rparr>"

definition throws :: "string \<Rightarrow> 's \<Rightarrow> 'm LogEntry \<Rightarrow> ('s, 'm) log_call" where
  "throws err st entry = \<lparr>transport_after = st, entry_after = entry, thrown = Some err\<rparr>"

definition newline :: string where
  "newline = [CHR 0x0A]"

text \<open>
  \<^verbatim>\<open>JSON.stringify\<close> returns a string for the entry and for its metadata, plain and
  indented (it throws on a value it cannot serialise, such as a circular structure).
\<close>

definition serialisable :: "'m Lib \<Rightarrow> 'm LogEntry \<Rightarrow> bool" where
  "serialisable lib entry =
     (JSON_stringify_entry lib entry \<noteq> None \<and>
      (case meta entry of
         None \<Rightarrow> True
       | Some v \<Rightarrow> JSON_stringify_meta lib v \<noteq> None \<and> JSON_stringify_meta_indent lib v \<noteq> None))"

section \<open>Console transport (console.transport.ts, in the sources after file.transport.ts)\<close>

datatype console_format = Simple | Json | Detailed

record ConsoleTransportOptions =
  c_minLevel :: "LogLevel option"
  colorize :: "bool option"
  showTimestamp :: "bool option"
  showLevel :: "bool option"
  levelColors :: "(LogLevel \<Rightarrow> string option) option"
  c_format :: "console_format option"

record ConsoleTransport =
  c_options :: ConsoleTransportOptions
  console_log_output :: "string list"

fun DEFAULT_COLORS :: "LogLevel \<Rightarrow> string" where
  "DEFAULT_COLORS DEBUG = ''gray''"
| "DEFAULT_COLORS INFO = ''cyan''"
| "DEFAULT_COLORS WARN = ''yellow''"
| "DEFAULT_COLORS ERROR = ''red''"
| "DEFAULT_COLORS FATAL = ''magenta''"

definition ConsoleTransport_constructor :: "ConsoleTransportOptions \<Rightarrow> ConsoleTransport" where
  "ConsoleTransport_constructor options =
     \<lparr>c_options = options
        \<lparr>colorize := with_default True (colorize options),
         showTimestamp := with_default True (showTimestamp options),
         showLevel := with_default True (showLevel options),
         c_format := with_default Simple (c_format options),
         levelColors := with_default (\<lambda>l. Some (DEFAULT_COLORS l)) (levelColors options)\<rparr>,
      console_log_output = []\<rparr>"

text \<open>Appending an optional metadata rendering; \<open>None\<close> when \<^verbatim>\<open>JSON.stringify\<close> throws.\<close>

definition append_meta :: "('m \<Rightarrow> string option) \<Rightarrow> string \<Rightarrow> 'm option \<Rightarrow> string \<Rightarrow> string option" where
  "append_meta stringify sep m s =
     (case m of
        None \<Rightarrow> Some s
      | Some v \<Rightarrow> (case stringify v of None \<Rightarrow> None | Some j \<Rightarrow> Some (s @ sep @ j)))"

definition append_stack :: "string option \<Rightarrow> string \<Rightarrow> string" where
  "append_stack st s = (if truthy_str st then s @ newline @ str_or st [] else s)"

definition formatSimple :: "'m Lib \<Rightarrow> ConsoleTransportOptions \<Rightarrow> 'm LogEntry \<Rightarrow> string option" where
  "formatSimple lib options entry =
     (let m0 = [];
          m1 = (if truthy_bool (showTimestamp options) then m0 @ ''['' @ timestamp entry @ ''] '' else m0);
          m2 = (if truthy_bool (showLevel options)
                then m1 @ ''['' @ level_toUpperCase (level entry) @ ''] '' else m1);
          m3 = m2 @ message entry
      in case append_meta (JSON_stringify_meta lib) '' '' (meta entry) m3 of
           None \<Rightarrow> None
         | Some m4 \<Rightarrow> Some (append_stack (stackTrace entry) m4))"

text \<open>\<^verbatim>\<open>parts.join('\n')\<close>.\<close>

fun join_lines :: "string list \<Rightarrow> string" where
  "join_lines [] = []"
| "join_lines [p] = p"
| "join_lines (p # ps) = p @ newline @ join_lines ps"

definition formatDetailed :: "'m Lib \<Rightarrow> ConsoleTransportOptions \<Rightarrow> 'm LogEntry \<Rightarrow> string option" where
  "formatDetailed lib options entry =
     (let p1 = (if truthy_bool (showTimestamp options) then [''TIME: '' @ timestamp entry] else []);
          p2 = (if truthy_bool (showLevel options)
                then p1 @ [''LEVEL: '' @ level_toUpperCase (level entry)] else p1);
          p3 = p2 @ [''MESSAGE: '' @ message entry]
      in case (case meta entry of
                 None \<Rightarrow> Some p3
               | Some v \<Rightarrow> (case JSON_stringify_meta_indent lib v of
                             None \<Rightarrow> None
                           | Some j \<Rightarrow> Some (p3 @ [''META: '' @ j]))) of
           None \<Rightarrow> None
         | Some p4 \<Rightarrow>
             Some (join_lines
               (if truthy_str (stackTrace entry)
                then p4 @ [''STACK TRACE:'' @ newline @ str_or (stackTrace entry) []] else p4)))"

definition getColorForLevel :: "ConsoleTransportOptions \<Rightarrow> LogLevel \<Rightarrow> string" where
  "getColorForLevel options lvl =
     str_or (case levelColors options of None \<Rightarrow> None | Some tab \<Rightarrow> tab lvl) (DEFAULT_COLORS lvl)"

definition ConsoleTransport_log ::
  "'m Lib \<Rightarrow> ConsoleTransport \<Rightarrow> 'm LogEntry \<Rightarrow> (ConsoleTransport, 'm) log_call" where
  "ConsoleTransport_log lib this entry =
     (if \<not> shouldLog (c_minLevel (c_options this)) (level entry) then returns this entry
      else
        case (case c_format (c_options this) of
                Some Json \<Rightarrow> JSON_stringify_entry lib entry
              | Some Detailed \<Rightarrow> formatDetailed lib (c_options this) entry
              | _ \<Rightarrow> formatSimple lib (c_options this) entry) of
          None \<Rightarrow> throws ''TypeError'' this entry
        | Some logOutput \<Rightarrow>
            (if truthy_bool (colorize (c_options this))
             then returns
               (this\<lparr>console_log_output := console_log_output this @
                  [colors_apply lib (getColorForLevel (c_options this) (level entry)) logOutput]\<rparr>) entry
             else returns (this\<lparr>console_log_output := console_log_output this @ [logOutput]\<rparr>) entry))"

section \<open>File transport (file.transport.ts)\<close>

datatype file_mode = Append | Truncate

datatype date_pattern = Hourly | Daily | Weekly | Monthly

datatype file_format = JsonFormat | TextFormat

record FileTransportOptions =
  f_minLevel :: "LogLevel option"
  filename :: "string option"
  directory :: "string option"
  mode :: "file_mode option"
  maxSize :: "nat option"
  maxFiles :: "nat option"
  datePattern :: "date_pattern option"
  f_format :: "file_format option"

text \<open>
  The calls the transport makes on the \<^verbatim>\<open>fs\<close> module, its stream and the console, in
  the order it makes them.
\<close>

datatype fs_call =
    StreamEnd string
  | UnlinkSync string
  | RenameSync string string
  | CreateWriteStream string
  | MkdirSync string
  | StreamWrite string string
  | ConsoleError string
  | SetInterval nat

text \<open>
  The transport with the part of the world it acts on: \<open>files\<close> maps a path to the
  content of the file there, \<open>directories\<close> are the directories that exist. A write
  stream is the path it was opened on (\<open>None\<close> is \<^verbatim>\<open>null\<close>). Stream operations take
  effect at once: a file is created when its stream is, and the callback of
  \<^verbatim>\<open>write\<close> runs with the write. The calendar test \<^verbatim>\<open>shouldRotateByTime\<close> is not
  modelled; when it holds the timer calls the same \<^verbatim>\<open>rotateFile\<close>.
\<close>

record FileTransport =
  f_options :: FileTransportOptions
  currentSize :: nat
  currentFilePath :: string
  writeStream :: "string option"
  rotationCheckInterval :: "nat option"
  files :: "string \<rightharpoonup> string"
  directories :: "string set"
  fs_calls :: "fs_call list"

text \<open>The decimal numeral of \<^verbatim>\<open>${i}\<close> in a template string.\<close>

definition digit_char :: "nat \<Rightarrow> char" where
  "digit_char d = ''0123456789'' ! d"

function decimal :: "nat \<Rightarrow> string" where
  "decimal n =
     (if n < 10 then [digit_char n]
      else decimal (n div 10) @ [digit_char (n mod 10)])"
  by pat_completeness auto
termination
  by (relation "measure (\<lambda>n. n)") auto

declare decimal.simps [simp del]

text \<open>\<^verbatim>\<open>s.slice(0, e)\<close>: a negative end counts from the end of the string.\<close>

definition slice0 :: "string \<Rightarrow> int \<Rightarrow> string" where
  "slice0 s e =
     (let len = int (length s);
          to = (if e < 0 then max (len + e) 0 else min e len)
      in take (nat to) s)"

text \<open>\<^verbatim>\<open>`${basePath}.${i}${ext}`\<close>.\<close>

definition backupPath :: "string \<Rightarrow> nat \<Rightarrow> string \<Rightarrow> string" where
  "backupPath basePath i ext = basePath @ ''.'' @ decimal i @ ext"

definition existsSync :: "FileTransport \<Rightarrow> string \<Rightarrow> bool" where
  "existsSync this p = (files this p \<noteq> None)"

definition unlinkSync :: "string \<Rightarrow> FileTransport \<Rightarrow> FileTransport" where
  "unlinkSync p this =
     this\<lparr>files := (files this)(p := None), fs_calls := fs_calls this @ [UnlinkSync p]\<rparr>"

text \<open>\<^verbatim>\<open>fs.renameSync\<close> of a source that exists; a file at the destination is replaced.\<close>

definition renameSync :: "string \<Rightarrow> string \<Rightarrow> FileTransport \<Rightarrow> FileTransport" where
  "renameSync old new this =
     this\<lparr>files := (if old = new then files this
                    else ((files this)(new := files this old))(old := None)),
          fs_calls := fs_calls this @ [RenameSync old new]\<rparr>"

text \<open>\<^verbatim>\<open>for (let i = n; i >= 1; i--)\<close> of \<^verbatim>\<open>renameOldFiles\<close>.\<close>

fun shiftFiles :: "string \<Rightarrow> string \<Rightarrow> nat \<Rightarrow> FileTransport \<Rightarrow> FileTransport" where
  "shiftFiles basePath ext 0 this = this"
| "shiftFiles basePath ext (Suc n) this =
     (let i = Suc n;
          oldFile = backupPath basePath i ext;
          newFile = backupPath basePath (i + 1) ext
      in shiftFiles basePath ext n
           (if existsSync this oldFile then renameSync oldFile newFile this else this))"

text \<open>
  \<^verbatim>\<open>renameOldFiles\<close>. The last \<^verbatim>\<open>renameSync\<close> throws when the active file does not
  exist; the \<^verbatim>\<open>catch\<close> logs the error.
\<close>

definition renameOldFiles :: "'m Lib \<Rightarrow> FileTransport \<Rightarrow> FileTransport" where
  "renameOldFiles lib this =
     (let ext = path_extname lib (currentFilePath this);
          basePath = slice0 (currentFilePath this) (- int (length ext));
          maxIndex = num_or (maxFiles (f_options this)) 5;
          oldestFile = backupPath basePath maxIndex ext;
          this1 = (if existsSync this oldestFile then unlinkSync oldestFile this else this);
          this2 = shiftFiles basePath ext (maxIndex - 1) this1
      in if existsSync this2 (currentFilePath this2)
         then renameSync (currentFilePath this2) (backupPath basePath 1 ext) this2
         else this2\<lparr>fs_calls := fs_calls this2 @ [ConsoleError ''Error during file rotation:'']\<rparr>)"

text \<open>
  \<^verbatim>\<open>createWriteStream\<close>: flag \<^verbatim>\<open>'a'\<close> keeps the content of an existing file, any other
  flag (Node's default is \<^verbatim>\<open>'w'\<close>) starts from an empty file.
\<close>

definition createWriteStream :: "FileTransport \<Rightarrow> FileTransport" where
  "createWriteStream this =
     (let this1 = (case writeStream this of
                     None \<Rightarrow> this
                   | Some h \<Rightarrow> this\<lparr>writeStream := None, fs_calls := fs_calls this @ [StreamEnd h]\<rparr>);
          p = currentFilePath this1;
          content = (case mode (f_options this1) of
                       Some Append \<Rightarrow> (case files this1 p of None \<Rightarrow> [] | Some c \<Rightarrow> c)
                     | _ \<Rightarrow> [])
      in this1\<lparr>writeStream := Some p,
               files := (files this1)(p \<mapsto> content),
               fs_calls := fs_calls this1 @ [CreateWriteStream p]\<rparr>)"

definition rotateFile :: "'m Lib \<Rightarrow> FileTransport \<Rightarrow> FileTransport" where
  "rotateFile lib this =
     (case writeStream this of
        None \<Rightarrow> this
      | Some h \<Rightarrow>
          (let this1 = this\<lparr>writeStream := None, fs_calls := fs_calls this @ [StreamEnd h]\<rparr>;
               this2 = renameOldFiles lib this1;
               this3 = this2\<lparr>currentSize := 0\<rparr>
           in createWriteStream this3))"

text \<open>\<^verbatim>\<open>this.options.maxSize && this.currentSize >= this.options.maxSize\<close>.\<close>

definition size_reached :: "nat option \<Rightarrow> nat \<Rightarrow> bool" where
  "size_reached limit n = (case limit of None \<Rightarrow> False | Some m \<Rightarrow> m \<noteq> 0 \<and> n \<ge> m)"

definition getFilePath :: "'m Lib \<Rightarrow> FileTransportOptions \<Rightarrow> string" where
  "getFilePath lib options =
     (let dir = str_or (directory options) []
      in if dir \<noteq> [] then path_join lib dir (str_or (filename options) [])
         else str_or (filename options) [])"

definition ensureDirectoryExists :: "FileTransport \<Rightarrow> FileTransport" where
  "ensureDirectoryExists this =
     (case directory (f_options this) of
        None \<Rightarrow> this
      | Some d \<Rightarrow>
          if d \<noteq> [] \<and> d \<notin> directories this
          then this\<lparr>directories := insert d (directories this),
                    fs_calls := fs_calls this @ [MkdirSync d]\<rparr>
          else this)"

definition checkFileSize :: "'m Lib \<Rightarrow> FileTransport \<Rightarrow> FileTransport" where
  "checkFileSize lib this =
     (case files this (currentFilePath this) of
        Some content \<Rightarrow>
          (let this1 = this\<lparr>currentSize := length content\<rparr>
           in if size_reached (maxSize (f_options this1)) (currentSize this1)
              then rotateFile lib this1 else this1)
      | None \<Rightarrow> this\<lparr>currentSize := 0\<rparr>)"

fun getCheckIntervalFromPattern :: "date_pattern \<Rightarrow> nat" where
  "getCheckIntervalFromPattern Hourly = 15 * 60 * 1000"
| "getCheckIntervalFromPattern Daily = 60 * 60 * 1000"
| "getCheckIntervalFromPattern Weekly = 6 * 60 * 60 * 1000"
| "getCheckIntervalFromPattern Monthly = 6 * 60 * 60 * 1000"

text \<open>
  The constructor, given the files and directories that exist. \<open>Inl\<close> is the error it
  throws. The field initialisers (\<^verbatim>\<open>writeStream = null\<close>, \<^verbatim>\<open>currentSize = 0\<close>) run when
  \<^verbatim>\<open>super\<close> returns, before the body.
\<close>

definition FileTransport_constructor ::
  "'m Lib \<Rightarrow> (string \<rightharpoonup> string) \<Rightarrow> string set \<Rightarrow> FileTransportOptions \<Rightarrow> string + FileTransport" where
  "FileTransport_constructor lib fs dirs options =
     (if \<not> truthy_str (filename options)
      then Inl ''Filename must be specified for FileTransport''
      else
        (let opts = options
               \<lparr>mode := with_default Append (mode options),
                maxSize := with_default (10 * 1024 * 1024) (maxSize options),
                maxFiles := with_default 5 (maxFiles options),
                f_format := with_default TextFormat (f_format options)\<rparr>;
             this0 = \<lparr>f_options = opts, currentSize = 0, currentFilePath = [],
                      writeStream = None, rotationCheckInterval = None,
                      files = fs, directories = dirs, fs_calls = []\<rparr>;
             this1 = this0\<lparr>currentFilePath := getFilePath lib opts\<rparr>;
             this2 = ensureDirectoryExists this1;
             this3 = checkFileSize lib this2;
             this4 = createWriteStream this3
         in Inr (case datePattern opts of
                   None \<Rightarrow> this4
                 | Some pat \<Rightarrow>
                     this4\<lparr>rotationCheckInterval := Some (getCheckIntervalFromPattern pat),
                           fs_calls := fs_calls this4 @ [SetInterval (getCheckIntervalFromPattern pat)]\<rparr>)))"

text \<open>The line written for an entry; \<open>None\<close> when \<^verbatim>\<open>JSON.stringify\<close> throws.\<close>

definition file_logString :: "'m Lib \<Rightarrow> FileTransportOptions \<Rightarrow> 'm LogEntry \<Rightarrow> string option" where
  "file_logString lib options entry =
     (if f_format options = Some JsonFormat
      then (case JSON_stringify_entry lib entry of None \<Rightarrow> None | Some j \<Rightarrow> Some (j @ newline))
      else
        (let l0 = ''['' @ timestamp entry @ ''] ['' @ level_toUpperCase (level entry) @ ''] ''
                  @ message entry
         in case append_meta (JSON_stringify_meta lib) '' '' (meta entry) l0 of
              None \<Rightarrow> None
            | Some l1 \<Rightarrow> Some (append_stack (stackTrace entry) l1 @ newline)))"

text \<open>
  \<^verbatim>\<open>FileTransport.log\<close>; \<open>write_error\<close> says whether the stream reports an error for
  this write.
\<close>

definition FileTransport_log ::
  "'m Lib \<Rightarrow> bool \<Rightarrow> FileTransport \<Rightarrow> 'm LogEntry \<Rightarrow> (FileTransport, 'm) log_call" where
  "FileTransport_log lib write_error this entry =
     (if \<not> shouldLog (f_minLevel (f_options this)) (level entry) then returns this entry
      else
        (let this1 = (if writeStream this = None then createWriteStream this else this)
         in case file_logString lib (f_options this1) entry of
              None \<Rightarrow> throws ''TypeError'' this1 entry
            | Some logString \<Rightarrow>
                (case writeStream this1 of
                   None \<Rightarrow> returns this1 entry
                 | Some h \<Rightarrow>
                     if write_error
                     then returns
                       (this1\<lparr>fs_calls := fs_calls this1 @
                          [StreamWrite h logString, ConsoleError ''Error writing to file:'']\<rparr>) entry
                     else
                       (let this2 = this1
                              \<lparr>files := (files this1)
                                 (h \<mapsto> (case files this1 h of None \<Rightarrow> [] | Some c \<Rightarrow> c) @ logString),
                               fs_calls := fs_calls this1 @ [StreamWrite h logString],
                               currentSize := currentSize this1 + length logString\<rparr>
                        in if size_reached (maxSize (f_options this2)) (currentSize this2)
                           then returns (rotateFile lib this2) entry
                           else returns this2 entry))))"

text \<open>Successive calls of \<^verbatim>\<open>log\<close>, each with the outcome of its write.\<close>

definition FileTransport_log_each ::
  "'m Lib \<Rightarrow> FileTransport \<Rightarrow> (bool \<times> 'm LogEntry) list \<Rightarrow> FileTransport" where
  "FileTransport_log_each lib this writes =
     foldl (\<lambda>t (write_error, entry). transport_after (FileTransport_log lib write_error t entry))
       this writes"

text \<open>
  A transport in its active state, for an active path \<open>base @ ext\<close> whose extension
  \<open>ext\<close>, as \<^verbatim>\<open>path.extname\<close> gives it, is not empty: the stream is open on the active
  path and the active file exists.
\<close>

definition rotating_state :: "'m Lib \<Rightarrow> string \<Rightarrow> string \<Rightarrow> FileTransportOptions \<Rightarrow> FileTransport \<Rightarrow> bool" where
  "rotating_state lib base ext options this =
     (path_extname lib (base @ ext) = ext \<and> ext \<noteq> [] \<and>
      currentFilePath this = base @ ext \<and>
      writeStream this = Some (base @ ext) \<and>
      files this (base @ ext) \<noteq> None \<and>
      f_options this = options)"

text \<open>No numbered backup has an index above \<open>N\<close>.\<close>

definition backups_within :: "string \<Rightarrow> string \<Rightarrow> nat \<Rightarrow> FileTransport \<Rightarrow> bool" where
  "backups_within base ext N this = (\<forall>i. N < i \<longrightarrow> files this (backupPath base i ext) = None)"

text \<open>A \<^verbatim>\<open>writeStream.write\<close> among the calls.\<close>

fun is_StreamWrite :: "fs_call \<Rightarrow> bool" where
  "is_StreamWrite (StreamWrite h s) = True"
| "is_StreamWrite _ = False"

section \<open>HTTP transport (http.transport.ts)\<close>

record HttpTransportOptions =
  h_minLevel :: "LogLevel option"
  h_url :: "string option"
  retryCount :: "nat option"
  retryDelay :: "nat option"
  batchLogs :: "bool option"
  batchSize :: "nat option"
  batchTimeout :: "nat option"

text \<open>
  What a \<^verbatim>\<open>fetch\<close> comes to: a response with its status, or a rejection (a network
  failure). \<^verbatim>\<open>response.ok\<close> holds for the statuses 200 to 299. The entries are taken to
  be serialisable here: \<^verbatim>\<open>JSON.stringify\<close>, which stands inside the same \<^verbatim>\<open>try\<close>, does
  not throw.
\<close>

datatype fetch_outcome = Response nat | Rejected

fun response_ok :: "fetch_outcome \<Rightarrow> bool" where
  "response_ok (Response status) = (200 \<le> status \<and> status \<le> 299)"
| "response_ok Rejected = False"

datatype 'm http_body = Single "'m LogEntry" | Batch "'m LogEntry list"

text \<open>
  What the transport does to the outside, in order: a POST to a URL with a JSON body (the
  headers are left out), an error on the console, timers set and cleared, and the awaited
  pause \<^verbatim>\<open>await new Promise(resolve => setTimeout(resolve, ms))\<close> of a retry.
\<close>

datatype 'm http_effect =
    Post string "'m http_body"
  | HttpConsoleError string
  | SetTimeout nat nat
  | ClearTimeout nat
  | Pause nat

text \<open>
  The transport. \<open>in_flight\<close> are the batches of the \<^verbatim>\<open>sendBatch\<close> calls that are
  suspended at \<^verbatim>\<open>await fetch(...)\<close>: each holds its \<^verbatim>\<open>batch\<close> until its response
  arrives. \<open>next_timer\<close> numbers the timer handles.
\<close>

record 'm HttpTransport =
  h_options :: HttpTransportOptions
  logQueue :: "'m LogEntry list"
  batchTimeoutId :: "nat option"
  in_flight :: "'m LogEntry list list"
  next_timer :: nat
  http_effects :: "'m http_effect list"

definition scheduleBatch :: "'m HttpTransport \<Rightarrow> 'm HttpTransport" where
  "scheduleBatch this =
     (let this1 = (case batchTimeoutId this of
                     None \<Rightarrow> this
                   | Some t \<Rightarrow> this\<lparr>http_effects := http_effects this @ [ClearTimeout t]\<rparr>);
          t' = next_timer this1
      in this1\<lparr>batchTimeoutId := Some t',
               next_timer := Suc t',
               http_effects := http_effects this1 @
                 [SetTimeout t' (num_or (batchTimeout (h_options this1)) 5000)]\<rparr>)"

text \<open>The constructor; \<open>Inl\<close> is the error it throws.\<close>

definition HttpTransport_constructor :: "HttpTransportOptions \<Rightarrow> string + 'm HttpTransport" where
  "HttpTransport_constructor options =
     (let opts = options
            \<lparr>retryCount := with_default 3 (retryCount options),
             retryDelay := with_default 1000 (retryDelay options),
             batchLogs := with_default False (batchLogs options),
             batchSize := with_default 10 (batchSize options),
             batchTimeout := with_default 5000 (batchTimeout options)\<rparr>
      in if \<not> truthy_str (h_url opts)
         then Inl ''URL must be specified for HttpTransport''
         else
           (let this = \<lparr>h_options = opts, logQueue = [], batchTimeoutId = None,
                        in_flight = [], next_timer = 0, http_effects = []\<rparr>
            in Inr (if truthy_bool (batchLogs opts) then scheduleBatch this else this)))"

text \<open>
  \<^verbatim>\<open>sendLog(entry, retryAttempt)\<close>, as the effects it has until its promise resolves;
  \<open>net k\<close> is what the \<^verbatim>\<open>fetch\<close> of attempt \<open>k\<close> comes to. It reads the options and
  nothing else of the transport, and every exception is caught, so the promise always
  resolves.
\<close>

function sendLog ::
  "HttpTransportOptions \<Rightarrow> (nat \<Rightarrow> fetch_outcome) \<Rightarrow> 'm LogEntry \<Rightarrow> nat \<Rightarrow> 'm http_effect list" where
  "sendLog options net entry retryAttempt =
     Post (str_or (h_url options) []) (Single entry) #
     (if response_ok (net retryAttempt) then []
      else
        HttpConsoleError ''HTTP transport log sending failed:'' #
        (if retryAttempt < num_or (retryCount options) 0
         then Pause (num_or (retryDelay options) 1000) #
              sendLog options net entry (retryAttempt + 1)
         else []))"
  by pat_completeness auto
termination
  by (relation "measure (\<lambda>(options, net, entry, retryAttempt).
        num_or (retryCount options) 0 - retryAttempt)") auto

text \<open>
  \<^verbatim>\<open>sendBatch\<close> up to its \<^verbatim>\<open>await fetch(...)\<close>: this part runs inside the caller
  (\<^verbatim>\<open>log\<close>, the timer or \<^verbatim>\<open>close\<close>).
\<close>

definition sendBatch_start :: "'m HttpTransport \<Rightarrow> 'm HttpTransport" where
  "sendBatch_start this =
     (if logQueue this = [] then this
      else
        (let batch = logQueue this
         in this\<lparr>logQueue := [],
                 in_flight := in_flight this @ [batch],
                 http_effects := http_effects this @
                   [Post (str_or (h_url (h_options this)) []) (Batch batch)]\<rparr>))"

text \<open>
  \<^verbatim>\<open>sendBatch\<close> from the \<^verbatim>\<open>await\<close> on, for the suspended call number \<open>k\<close>, when its
  \<^verbatim>\<open>fetch\<close> has come to \<open>outcome\<close>.
\<close>

definition sendBatch_resume :: "nat \<Rightarrow> fetch_outcome \<Rightarrow> 'm HttpTransport \<Rightarrow> 'm HttpTransport" where
  "sendBatch_resume k outcome this =
     (if k < length (in_flight this)
      then
        (let batch = in_flight this ! k;
             this1 = this\<lparr>in_flight := take k (in_flight this) @ drop (Suc k) (in_flight this)\<rparr>;
             this2 = (if response_ok outcome then this1
                      else this1\<lparr>http_effects := http_effects this1 @
                                   [HttpConsoleError ''HTTP transport batch sending failed:''],
                                 logQueue := batch @ logQueue this1\<rparr>)
         in scheduleBatch this2)
      else this)"

text \<open>The batch timer fires: \<^verbatim>\<open>setTimeout(() => { this.sendBatch(); }, ...)\<close>.\<close>

definition batch_timer_fires :: "'m HttpTransport \<Rightarrow> 'm HttpTransport" where
  "batch_timer_fires this = sendBatch_start this"

text \<open>
  \<^verbatim>\<open>HttpTransport.log\<close>. In immediate mode the caller awaits the promise of
  \<^verbatim>\<open>sendLog\<close>, so the call is modelled up to its resolution.
\<close>

definition HttpTransport_log ::
  "(nat \<Rightarrow> fetch_outcome) \<Rightarrow> 'm HttpTransport \<Rightarrow> 'm LogEntry \<Rightarrow> ('m HttpTransport, 'm) log_call" where
  "HttpTransport_log net this entry =
     (if \<not> shouldLog (h_minLevel (h_options this)) (level entry) then returns this entry
      else if truthy_bool (batchLogs (h_options this))
      then
        (let this1 = this\<lparr>logQueue := logQueue this @ [entry]\<rparr>
         in if length (logQueue this1) \<ge> num_or (batchSize (h_options this1)) 10
            then returns (sendBatch_start this1) entry
            else returns this1 entry)
      else returns
        (this\<lparr>http_effects := http_effects this @ sendLog (h_options this) net entry 0\<rparr>) entry)"


declare sendLog.simps [simp del]

text \<open>A POST among the effects, and the two effects of one failed attempt of \<^verbatim>\<open>sendLog\<close>.\<close>

fun is_Post :: "'m http_effect \<Rightarrow> bool" where
  "is_Post (Post u b) = True"
| "is_Post _ = False"

definition failed_attempt :: "HttpTransportOptions \<Rightarrow> 'm LogEntry \<Rightarrow> 'm http_effect list" where
  "failed_attempt options entry =
     [Post (str_or (h_url options) []) (Single entry),
      HttpConsoleError ''HTTP transport log sending failed:'']"

text \<open>Successive calls of \<^verbatim>\<open>log\<close>, one for each entry of a list.\<close>

definition HttpTransport_log_each ::
  "(nat \<Rightarrow> fetch_outcome) \<Rightarrow> 'm HttpTransport \<Rightarrow> 'm LogEntry list \<Rightarrow> 'm HttpTransport" where
  "HttpTransport_log_each net this entries =
     foldl (\<lambda>t e. transport_after (HttpTransport_log net t e)) this entries"

section \<open>WebSocket transport (websocket.transport.ts)\<close>

record WebSocketTransportOptions =
  ws_minLevel :: "LogLevel option"
  ws_url :: "string option"
  reconnect :: "bool option"
  maxReconnectAttempts :: "nat option"
  reconnectInterval :: "nat option"
  sendTimeout :: "nat option"
  bufferWhenDisconnected :: "bool option"
  maxBufferSize :: "nat option"

datatype readyState = CONNECTING | OPEN | CLOSING | CLOSED

datatype 'm ws_effect =
    NewWebSocket string
  | SocketSend "'m LogEntry"
  | WsConsoleLog string
  | WsConsoleError string
  | WsSetTimeout nat "nat option"
  | WsClearTimeout nat

text \<open>
  The transport. \<open>socket\<close> is \<^verbatim>\<open>null\<close> (\<open>None\<close>) or the socket, given by its
  \<^verbatim>\<open>readyState\<close>; the state changes with the events of the socket below.
\<close>

record 'm WebSocketTransport =
  ws_options :: WebSocketTransportOptions
  socket :: "readyState option"
  buffer :: "'m LogEntry list"
  reconnectAttempts :: nat
  reconnectTimer :: "nat option"
  isConnecting :: bool
  ws_next_timer :: nat
  ws_effects :: "'m ws_effect list"

text \<open>\<^verbatim>\<open>this.buffer.shift()\<close> leaves an empty array empty.\<close>

definition bufferMessage :: "'m LogEntry \<Rightarrow> 'm WebSocketTransport \<Rightarrow> 'm WebSocketTransport" where
  "bufferMessage entry this =
     (let this1 = (if truthy_num (maxBufferSize (ws_options this)) \<and>
                      length (buffer this) \<ge> num_or (maxBufferSize (ws_options this)) 0
                   then this\<lparr>buffer := tl (buffer this)\<rparr> else this)
      in this1\<lparr>buffer := buffer this1 @ [entry]\<rparr>)"

text \<open>
  \<^verbatim>\<open>sendLogEntry\<close>; \<open>send_ok entry\<close> says whether \<^verbatim>\<open>JSON.stringify(entry)\<close> and
  \<^verbatim>\<open>socket.send\<close> return for this entry, rather than throw.
\<close>

definition sendLogEntry ::
  "('m LogEntry \<Rightarrow> bool) \<Rightarrow> 'm LogEntry \<Rightarrow> 'm WebSocketTransport \<Rightarrow> 'm WebSocketTransport" where
  "sendLogEntry send_ok entry this =
     (if socket this \<noteq> Some OPEN
      then (if truthy_bool (bufferWhenDisconnected (ws_options this))
            then bufferMessage entry this else this)
      else if send_ok entry
      then this\<lparr>ws_effects := ws_effects this @ [SocketSend entry]\<rparr>
      else
        (let this1 = this\<lparr>ws_effects := ws_effects this @
                            [WsConsoleError ''Error sending log via WebSocket:'']\<rparr>
         in if truthy_bool (bufferWhenDisconnected (ws_options this1))
            then bufferMessage entry this1 else this1))"

text \<open>
  \<^verbatim>\<open>for (const entry of this.buffer) this.sendLogEntry(entry)\<close>: the array iterator reads
  index \<open>i\<close> of the array as it is at that moment, and \<^verbatim>\<open>sendLogEntry\<close> may change the
  array. The loop need not end (\<open>None\<close>).
\<close>

partial_function (option) sendBuffered_loop ::
  "('m LogEntry \<Rightarrow> bool) \<Rightarrow> nat \<Rightarrow> 'm WebSocketTransport \<Rightarrow> 'm WebSocketTransport option" where
  "sendBuffered_loop send_ok i this =
     (if i < length (buffer this)
      then sendBuffered_loop send_ok (Suc i) (sendLogEntry send_ok (buffer this ! i) this)
      else Some this)"

definition sendBufferedMessages ::
  "('m LogEntry \<Rightarrow> bool) \<Rightarrow> 'm WebSocketTransport \<Rightarrow> 'm WebSocketTransport option" where
  "sendBufferedMessages send_ok this =
     (if buffer this = [] then Some this
      else
        (case sendBuffered_loop send_ok 0
                (this\<lparr>ws_effects := ws_effects this @ [WsConsoleLog ''Sending buffered messages...'']\<rparr>) of
           None \<Rightarrow> None
         | Some this1 \<Rightarrow> Some (this1\<lparr>buffer := []\<rparr>)))"

definition scheduleReconnect :: "'m WebSocketTransport \<Rightarrow> 'm WebSocketTransport" where
  "scheduleReconnect this =
     (let this1 = (case reconnectTimer this of
                     None \<Rightarrow> this
                   | Some t \<Rightarrow> this\<lparr>ws_effects := ws_effects this @ [WsClearTimeout t]\<rparr>);
          this2 = this1\<lparr>reconnectAttempts := reconnectAttempts this1 + 1\<rparr>;
          t' = ws_next_timer this2
      in this2\<lparr>reconnectTimer := Some t',
               ws_next_timer := Suc t',
               ws_effects := ws_effects this2 @
                 [WsSetTimeout t' (reconnectInterval (ws_options this2))]\<rparr>)"

definition handleClose :: "'m WebSocketTransport \<Rightarrow> 'm WebSocketTransport" where
  "handleClose this =
     (let this1 = this\<lparr>ws_effects := ws_effects this @ [WsConsoleLog ''WebSocket connection closed.'']\<rparr>
      in if truthy_bool (reconnect (ws_options this1)) \<and>
            (\<not> truthy_num (maxReconnectAttempts (ws_options this1)) \<or>
             reconnectAttempts this1 < num_or (maxReconnectAttempts (ws_options this1)) 0)
         then scheduleReconnect this1 else this1)"

definition handleOpen ::
  "('m LogEntry \<Rightarrow> bool) \<Rightarrow> 'm WebSocketTransport \<Rightarrow> 'm WebSocketTransport option" where
  "handleOpen send_ok this =
     sendBufferedMessages send_ok
       (this\<lparr>ws_effects := ws_effects this @ [WsConsoleLog ''WebSocket connection established''],
             reconnectAttempts := 0\<rparr>)"

text \<open>
  \<^verbatim>\<open>connect\<close>; \<open>ctor_throws\<close> says whether \<^verbatim>\<open>new WebSocket(...)\<close> throws.
\<close>

definition connect :: "bool \<Rightarrow> 'm WebSocketTransport \<Rightarrow> 'm WebSocketTransport" where
  "connect ctor_throws this =
     (if socket this = Some CONNECTING \<or> socket this = Some OPEN then this
      else if isConnecting this then this
      else
        (let this1 = this\<lparr>isConnecting := True\<rparr>;
             this2 = (if ctor_throws
                      then handleClose
                        (this1\<lparr>ws_effects := ws_effects this1 @
                            [WsConsoleError ''Could not create WebSocket connection:'']\<rparr>)
                      else this1\<lparr>socket := Some CONNECTING,
                                 ws_effects := ws_effects this1 @
                                   [NewWebSocket (str_or (ws_url (ws_options this1)) [])]\<rparr>)
         in this2\<lparr>isConnecting := False\<rparr>))"

text \<open>The constructor; \<open>Inl\<close> is the error it throws.\<close>

definition WebSocketTransport_constructor ::
  "bool \<Rightarrow> WebSocketTransportOptions \<Rightarrow> string + 'm WebSocketTransport" where
  "WebSocketTransport_constructor ctor_throws options =
     (if \<not> truthy_str (ws_url options)
      then Inl ''URL must be specified for WebSocketTransport''
      else
        (let opts = options
               \<lparr>reconnect := with_default True (reconnect options),
                maxReconnectAttempts := with_default 5 (maxReconnectAttempts options),
                reconnectInterval := with_default 5000 (reconnectInterval options),
                sendTimeout := with_default 10000 (sendTimeout options),
                bufferWhenDisconnected := with_default True (bufferWhenDisconnected options),
                maxBufferSize := with_default 100 (maxBufferSize options)\<rparr>
         in Inr (connect ctor_throws
                  \<lparr>ws_options = opts, socket = None, buffer = [], reconnectAttempts = 0,
                   reconnectTimer = None, isConnecting = False, ws_next_timer = 0,
                   ws_effects = []\<rparr>)))"

text \<open>The events of the socket and of the reconnect timer, each with its handler.\<close>

definition socket_opens ::
  "('m LogEntry \<Rightarrow> bool) \<Rightarrow> 'm WebSocketTransport \<Rightarrow> 'm WebSocketTransport option" where
  "socket_opens send_ok this = handleOpen send_ok (this\<lparr>socket := Some OPEN\<rparr>)"

definition socket_closes :: "'m WebSocketTransport \<Rightarrow> 'm WebSocketTransport" where
  "socket_closes this =
     handleClose (case socket this of None \<Rightarrow> this | Some s \<Rightarrow> this\<lparr>socket := Some CLOSED\<rparr>)"

definition reconnect_timer_fires :: "bool \<Rightarrow> 'm WebSocketTransport \<Rightarrow> 'm WebSocketTransport" where
  "reconnect_timer_fires ctor_throws this = connect ctor_throws this"

definition WebSocketTransport_log ::
  "('m LogEntry \<Rightarrow> bool) \<Rightarrow> 'm WebSocketTransport \<Rightarrow> 'm LogEntry \<Rightarrow>
     ('m WebSocketTransport, 'm) log_call" where
  "WebSocketTransport_log send_ok this entry =
     (if \<not> shouldLog (ws_minLevel (ws_options this)) (level entry) then returns this entry
      else if socket this \<noteq> Some OPEN
      then (if truthy_bool (bufferWhenDisconnected (ws_options this))
            then returns (bufferMessage entry this) entry
            else returns this entry)
      else returns (sendLogEntry send_ok entry this) entry)"

text \<open>Successive calls of \<^verbatim>\<open>log\<close>, one for each entry of a list.\<close>

definition log_each ::
  "('m LogEntry \<Rightarrow> bool) \<Rightarrow> 'm WebSocketTransport \<Rightarrow> 'm LogEntry list \<Rightarrow> 'm WebSocketTransport" where
  "log_each send_ok this entries =
     foldl (\<lambda>t e. transport_after (WebSocketTransport_log send_ok t e)) this entries"

text \<open>
  One failed reconnection: the reconnect timer fires, \<^verbatim>\<open>connect\<close> creates a socket, and
  the socket closes without having opened.
\<close>

definition failed_reconnect :: "'m WebSocketTransport \<Rightarrow> 'm WebSocketTransport" where
  "failed_reconnect this = socket_closes (reconnect_timer_fires False this)"

section \<open>The logger's fan-out (logger.ts, \<^verbatim>\<open>writeToTransports\<close>)\<close>

datatype 'm Transport =
    Console ConsoleTransport
  | File FileTransport
  | Http "'m HttpTransport"
  | WebSocket "'m WebSocketTransport"

text \<open>What the outside does during one call: the parameters of the four \<^verbatim>\<open>log\<close> methods.\<close>

record 'm World =
  w_lib :: "'m Lib"
  w_write_error :: bool
  w_net :: "nat \<Rightarrow> fetch_outcome"
  w_send_ok :: "'m LogEntry \<Rightarrow> bool"

definition map_call :: "('s \<Rightarrow> 't) \<Rightarrow> ('s, 'm) log_call \<Rightarrow> ('t, 'm) log_call" where
  "map_call f r =
     \<lparr>transport_after = f (transport_after r), entry_after = entry_after r, thrown = thrown r\<rparr>"

text \<open>The dynamic dispatch of \<^verbatim>\<open>transport.log(entry)\<close>.\<close>

fun Transport_log :: "'m World \<Rightarrow> 'm Transport \<Rightarrow> 'm LogEntry \<Rightarrow> ('m Transport, 'm) log_call" where
  "Transport_log w (Console t) entry = map_call Console (ConsoleTransport_log (w_lib w) t entry)"
| "Transport_log w (File t) entry =
     map_call File (FileTransport_log (w_lib w) (w_write_error w) t entry)"
| "Transport_log w (Http t) entry = map_call Http (HttpTransport_log (w_net w) t entry)"
| "Transport_log w (WebSocket t) entry =
     map_call WebSocket (WebSocketTransport_log (w_send_ok w) t entry)"

text \<open>
  \<^verbatim>\<open>for (const transport of this.transports) { try { await transport.log(entry) } catch
  ... }\<close>: the transports afterwards, the entry object afterwards, and the errors written
  to the console. Each transport is handed the object as the one before it left it.
\<close>

fun writeToTransports ::
  "'m World \<Rightarrow> 'm Transport list \<Rightarrow> 'm LogEntry \<Rightarrow> 'm Transport list \<times> 'm LogEntry \<times> string list" where
  "writeToTransports w [] entry = ([], entry, [])"
| "writeToTransports w (t # ts) entry =
     (let r = Transport_log w t entry;
          errs = (case thrown r of None \<Rightarrow> [] | Some e \<Rightarrow> [''Transport write error:'']);
          (ts', entry', errs') = writeToTransports w ts (entry_after r)
      in (transport_after r # ts', entry', errs @ errs'))"

section \<open>Sample values\<close>

text \<open>The sample entry of the repository's tests, with a metadata object as its key-value pairs.\<close>

type_synonym sample_meta = "(string \<times> string) list"

definition sampleEntry :: "sample_meta LogEntry" where
  "sampleEntry =
     \<lparr>timestamp = ''2023-01-01T12:00:00.000Z'', level = INFO, message = ''Test message'',
      meta = Some [(''user'', ''test-user'')], stackTrace = None\<rparr>"

definition sample_stringify_meta :: "sample_meta \<Rightarrow> string option" where
  "sample_stringify_meta m = Some (''{'' @ concat (map (\<lambda>(k, v). k @ '':'' @ v @ '','') m) @ ''}'')"

definition sampleLib :: "sample_meta Lib" where
  "sampleLib =
     \<lparr>JSON_stringify_entry = (\<lambda>e. Some (''{'' @ message e @ ''}'')),
      JSON_stringify_meta = sample_stringify_meta,
      JSON_stringify_meta_indent = sample_stringify_meta,
      colors_apply = (\<lambda>c s. s),
      path_extname = (\<lambda>p. ''.log''),
      path_join = (\<lambda>d f. d @ ''/'' @ f)\<rparr>"

definition sampleConsole :: ConsoleTransport where
  "sampleConsole =
     ConsoleTransport_constructor
       \<lparr>c_minLevel = Some WARN, colorize = Some False, showTimestamp = None, showLevel = None,
        levelColors = None, c_format = None\<rparr>"

definition sampleFile :: FileTransport where
  "sampleFile =
     \<lparr>f_options = \<lparr>f_minLevel = Some ERROR, filename = Some ''test.log'', directory = None,
                    mode = Some Append, maxSize = Some 100, maxFiles = Some 3,
                    datePattern = None, f_format = Some TextFormat\<rparr>,
      currentSize = 0, currentFilePath = ''test.log'', writeStream = Some ''test.log'',
      rotationCheckInterval = None, files = [''test.log'' \<mapsto> []], directories = {},
      fs_calls = []\<rparr>"

definition sampleHttpOptions :: HttpTransportOptions where
  "sampleHttpOptions =
     \<lparr>h_minLevel = Some WARN, h_url = Some ''https://example.com/logs'', retryCount = Some 2,
      retryDelay = Some 50, batchLogs = Some False, batchSize = Some 2, batchTimeout = Some 5000\<rparr>"

definition sampleHttp :: "sample_meta HttpTransport" where
  "sampleHttp =
     \<lparr>h_options = sampleHttpOptions, logQueue = [], batchTimeoutId = None, in_flight = [],
      next_timer = 0, http_effects = []\<rparr>"

definition sampleWsOptions :: WebSocketTransportOptions where
  "sampleWsOptions =
     \<lparr>ws_minLevel = Some WARN, ws_url = Some ''ws://example.com/logs'', reconnect = Some True,
      maxReconnectAttempts = Some 5, reconnectInterval = Some 5000, sendTimeout = Some 10000,
      bufferWhenDisconnected = Some True, maxBufferSize = Some 2\<rparr>"

definition sampleWs :: "sample_meta WebSocketTransport" where
  "sampleWs =
     \<lparr>ws_options = sampleWsOptions, socket = Some CONNECTING, buffer = [], reconnectAttempts = 0,
      reconnectTimer = None, isConnecting = False, ws_next_timer = 0, ws_effects = []\<rparr>"

definition sampleError :: "string \<Rightarrow> sample_meta LogEntry" where
  "sampleError msg = sampleEntry\<lparr>level := ERROR, message := msg\<rparr>"

definition sampleHttpBatchOptions :: HttpTransportOptions where
  "sampleHttpBatchOptions =
     \<lparr>h_minLevel = Some WARN, h_url = Some ''https://example.com/logs'', retryCount = Some 2,
      retryDelay = Some 50, batchLogs = Some True, batchSize = Some 2, batchTimeout = Some 5000\<rparr>"

definition sampleHttpBatch :: "sample_meta HttpTransport" where
  "sampleHttpBatch =
     \<lparr>h_options = sampleHttpBatchOptions, logQueue = [], batchTimeoutId = None, in_flight = [],
      next_timer = 0, http_effects = []\<rparr>"


definition sampleInFlight :: "sample_meta HttpTransport" where
  "sampleInFlight =
     sampleHttpBatch
       \<lparr>logQueue := [sampleError ''third''],
        in_flight := [[sampleError ''first'', sampleError ''second'']],
        http_effects := [Post ''https://example.com/logs''
                           (Batch [sampleError ''first'', sampleError ''second''])]\<rparr>"

definition sampleWsZeroOptions :: WebSocketTransportOptions where
  "sampleWsZeroOptions =
     \<lparr>ws_minLevel = None, ws_url = Some ''ws://example.com/logs'', reconnect = None,
      maxReconnectAttempts = Some 0, reconnectInterval = None, sendTimeout = None,
      bufferWhenDisconnected = None, maxBufferSize = None\<rparr>"

definition sampleWsZero :: "sample_meta WebSocketTransport" where
  "sampleWsZero =
     \<lparr>ws_options =
        \<lparr>ws_minLevel = None, ws_url = Some ''ws://example.com/logs'', reconnect = Some True,
         maxReconnectAttempts = Some 0, reconnectInterval = Some 5000, sendTimeout = Some 10000,
         bufferWhenDisconnected = Some True, maxBufferSize = Some 100\<rparr>,
      socket = Some CONNECTING, buffer = [], reconnectAttempts = 0, reconnectTimer = None,
      isConnecting = False, ws_next_timer = 0,
      ws_effects = [NewWebSocket ''ws://example.com/logs'']\<rparr>"

definition sampleWsNoBuffer :: "sample_meta WebSocketTransport" where
  "sampleWsNoBuffer = sampleWs\<lparr>ws_options := sampleWsOptions\<lparr>bufferWhenDisconnected := Some False\<rparr>\<rparr>"

definition sampleWsUncapped :: "sample_meta WebSocketTransport" where
  "sampleWsUncapped = sampleWs\<lparr>ws_options := sampleWsOptions\<lparr>maxBufferSize := Some 0\<rparr>\<rparr>"

definition sampleRotating :: FileTransport where
  "sampleRotating =
     \<lparr>f_options = \<lparr>f_minLevel = None, filename = Some ''test.log'', directory = None,
                    mode = Some Append, maxSize = Some 100, maxFiles = Some 3,
                    datePattern = None, f_format = Some TextFormat\<rparr>,
      currentSize = 100, currentFilePath = ''test.log'', writeStream = Some ''test.log'',
      rotationCheckInterval = None,
      files = [''test.log'' \<mapsto> ''new'', ''test.1.log'' \<mapsto> ''one'', ''test.2.log'' \<mapsto> ''two'',
               ''test.3.log'' \<mapsto> ''three''],
      directories = {}, fs_calls = []\<rparr>"

definition sampleRotatingZero :: FileTransport where
  "sampleRotatingZero =
     sampleRotating
       \<lparr>f_options := f_options sampleRotating\<lparr>maxFiles := Some 0\<rparr>,
        files := [''test.log'' \<mapsto> ''new'', ''test.1.log'' \<mapsto> ''one'']\<rparr>"

definition sampleFullOptions :: FileTransportOptions where
  "sampleFullOptions =
     \<lparr>f_minLevel = None, filename = Some ''app.log'', directory = None, mode = None,
      maxSize = Some 10, maxFiles = None, datePattern = None, f_format = None\<rparr>"

definition sampleFullDisk :: "string \<rightharpoonup> string" where
  "sampleFullDisk = [''app.log'' \<mapsto> ''0123456789'']"

definition sampleFull :: FileTransport where
  "sampleFull =
     \<lparr>f_options =
        \<lparr>f_minLevel = None, filename = Some ''app.log'', directory = None, mode = Some Append,
         maxSize = Some 10, maxFiles = Some 5, datePattern = None, f_format = Some TextFormat\<rparr>,
      currentSize = 10, currentFilePath = ''app.log'', writeStream = Some ''app.log'',
      rotationCheckInterval = None, files = sampleFullDisk, directories = {},
      fs_calls = [CreateWriteStream ''app.log'']\<rparr>"

definition sampleLine :: string where
  "sampleLine = ''[2023-01-01T12:00:00.000Z] [INFO] Test message {user:test-user,}'' @ newline"

definition sampleFullWritten :: FileTransport where
  "sampleFullWritten =
     sampleFull
       \<lparr>files := [''app.log'' \<mapsto> ''0123456789'' @ sampleLine],
        fs_calls := [CreateWriteStream ''app.log'', StreamWrite ''app.log'' sampleLine],
        currentSize := 10 + length sampleLine\<rparr>"

definition sampleNoExtension :: FileTransport where
  "sampleNoExtension =
     \<lparr>f_options = \<lparr>f_minLevel = None, filename = Some ''app'', directory = None,
                    mode = Some Append, maxSize = Some 100, maxFiles = Some 1,
                    datePattern = None, f_format = Some TextFormat\<rparr>,
      currentSize = 100, currentFilePath = ''app'', writeStream = Some ''app'',
      rotationCheckInterval = None, files = [''app'' \<mapsto> ''content''], directories = {},
      fs_calls = []\<rparr>"

definition sampleWorld :: "sample_meta World" where
  "sampleWorld =
     \<lparr>w_lib = sampleLib, w_write_error = False, w_net = (\<lambda>k. Response 500),
      w_send_ok = (\<lambda>e. True)\<rparr>"

definition sampleHttpNoUrl :: HttpTransportOptions where
  "sampleHttpNoUrl = sampleHttpOptions\<lparr>h_url := None\<rparr>"

definition sampleWsEmptyUrl :: WebSocketTransportOptions where
  "sampleWsEmptyUrl = sampleWsOptions\<lparr>ws_url := Some []\<rparr>"

definition sampleWsBuffered :: "sample_meta WebSocketTransport" where
  "sampleWsBuffered =
     sampleWs\<lparr>buffer := [sampleError ''first'', sampleError ''second'']\<rparr>"

section \<open>The admission rule\<close>

lemma indexOf_LogLevel_values: "indexOf LogLevel_values l = int (spec_ordinal l)"
  by (cases l) (simp_all add: indexOf_def LogLevel_values_def)

lemma shouldLog_ordinal:
  "shouldLog (Some m) l = (spec_ordinal m \<le> spec_ordinal l)"
  by (simp add: shouldLog_def indexOf_LogLevel_values)

text \<open>
  Past the gate each transport acts on the entry. When \<^verbatim>\<open>JSON.stringify\<close> returns, the
  console transport has a line to print and the file transport a line to write; the
  rotation that may follow a write adds no write of its own.
\<close>

lemma append_meta_serialisable:
  "serialisable lib entry \<Longrightarrow> \<exists>s'. append_meta (JSON_stringify_meta lib) sep (meta entry) s = Some s'"
  by (cases "meta entry") (auto simp add: serialisable_def append_meta_def)

lemma formatSimple_serialisable:
  "serialisable lib entry \<Longrightarrow> \<exists>out. formatSimple lib options entry = Some out"
proof -
  assume "serialisable lib entry"
  then obtain s' where "append_meta (JSON_stringify_meta lib) '' '' (meta entry)
      ((if truthy_bool (showLevel options)
        then (if truthy_bool (showTimestamp options) then [] @ ''['' @ timestamp entry @ ''] '' else [])
             @ ''['' @ level_toUpperCase (level entry) @ ''] ''
        else (if truthy_bool (showTimestamp options) then [] @ ''['' @ timestamp entry @ ''] '' else []))
       @ message entry) = Some s'"
    using append_meta_serialisable by blast
  then show ?thesis
    by (simp add: formatSimple_def Let_def)
qed

lemma formatDetailed_serialisable:
  "serialisable lib entry \<Longrightarrow> \<exists>out. formatDetailed lib options entry = Some out"
  by (cases "meta entry") (auto simp add: serialisable_def formatDetailed_def Let_def)

lemma console_output_serialisable:
  assumes "serialisable lib entry"
  shows "\<exists>out. (case c_format options of
                  Some Json \<Rightarrow> JSON_stringify_entry lib entry
                | Some Detailed \<Rightarrow> formatDetailed lib options entry
                | _ \<Rightarrow> formatSimple lib options entry) = Some out"
proof (cases "c_format options")
  case None
  then show ?thesis
    using formatSimple_serialisable [OF assms] by simp
next
  case (Some f)
  then show ?thesis
    using formatSimple_serialisable [OF assms] formatDetailed_serialisable [OF assms] assms
    by (cases f) (auto simp add: serialisable_def)
qed

lemma ConsoleTransport_log_admitted:
  assumes "shouldLog (c_minLevel (c_options ct)) (level entry)" and "serialisable lib entry"
  shows "\<exists>line. ConsoleTransport_log lib ct entry =
           returns (ct\<lparr>console_log_output := console_log_output ct @ [line]\<rparr>) entry"
proof -
  obtain out where out: "(case c_format (c_options ct) of
                  Some Json \<Rightarrow> JSON_stringify_entry lib entry
                | Some Detailed \<Rightarrow> formatDetailed lib (c_options ct) entry
                | _ \<Rightarrow> formatSimple lib (c_options ct) entry) = Some out"
    using console_output_serialisable [OF assms(2)] by blast
  show ?thesis
    unfolding ConsoleTransport_log_def out using assms(1) by auto
qed

lemma shiftFiles_writes:
  "filter is_StreamWrite (fs_calls (shiftFiles b e n t)) = filter is_StreamWrite (fs_calls t)"
  by (induction n arbitrary: t) (simp_all add: Let_def renameSync_def)

lemma renameOldFiles_writes:
  "filter is_StreamWrite (fs_calls (renameOldFiles lib t)) = filter is_StreamWrite (fs_calls t)"
  by (simp add: renameOldFiles_def Let_def shiftFiles_writes renameSync_def unlinkSync_def)

lemma createWriteStream_writes:
  "filter is_StreamWrite (fs_calls (createWriteStream t)) = filter is_StreamWrite (fs_calls t)"
  "f_options (createWriteStream t) = f_options t"
  "writeStream (createWriteStream t) = Some (currentFilePath t)"
  by (simp_all add: createWriteStream_def Let_def split: option.splits)

lemma rotateFile_writes:
  "filter is_StreamWrite (fs_calls (rotateFile lib t)) = filter is_StreamWrite (fs_calls t)"
  by (simp add: rotateFile_def Let_def createWriteStream_writes renameOldFiles_writes
      split: option.splits)

lemma file_logString_serialisable:
  "serialisable lib entry \<Longrightarrow> \<exists>line. file_logString lib options entry = Some line"
  by (auto simp add: serialisable_def file_logString_def append_meta_def Let_def
      split: option.splits)

lemma FileTransport_log_admitted:
  assumes "shouldLog (f_minLevel (f_options ft)) (level entry)"
    and "file_logString lib (f_options ft) entry = Some line"
  shows "thrown (FileTransport_log lib werr ft entry) = None \<and>
     filter is_StreamWrite (fs_calls (transport_after (FileTransport_log lib werr ft entry))) =
       filter is_StreamWrite (fs_calls ft) @
       [StreamWrite (case writeStream ft of None \<Rightarrow> currentFilePath ft | Some h \<Rightarrow> h) line]"
  using assms
  by (cases "writeStream ft")
    (simp_all add: FileTransport_log_def Let_def createWriteStream_writes rotateFile_writes
      returns_def)

lemma HttpTransport_log_admitted:
  assumes "shouldLog (h_minLevel (h_options ht)) (level entry)"
  shows "if truthy_bool (batchLogs (h_options ht))
     then concat (in_flight (transport_after (HttpTransport_log net ht entry))) @
            logQueue (transport_after (HttpTransport_log net ht entry)) =
          concat (in_flight ht) @ logQueue ht @ [entry]
     else \<exists>rest. http_effects (transport_after (HttpTransport_log net ht entry)) =
            http_effects ht @ Post (str_or (h_url (h_options ht)) []) (Single entry) # rest"
  using assms
  by (simp add: HttpTransport_log_def Let_def sendBatch_start_def returns_def)
    (subst sendLog.simps, simp)

lemma WebSocketTransport_log_admitted:
  assumes "shouldLog (ws_minLevel (ws_options wt)) (level entry)"
  shows "if socket wt = Some OPEN \<and> ok entry
     then WebSocketTransport_log ok wt entry =
            returns (wt\<lparr>ws_effects := ws_effects wt @ [SocketSend entry]\<rparr>) entry
     else if truthy_bool (bufferWhenDisconnected (ws_options wt))
     then \<exists>kept. buffer (transport_after (WebSocketTransport_log ok wt entry)) = kept @ [entry]
     else WebSocketTransport_log ok wt entry =
            returns (if socket wt = Some OPEN
                     then wt\<lparr>ws_effects := ws_effects wt @
                                [WsConsoleError ''Error sending log via WebSocket:'']\<rparr>
                     else wt) entry"
  using assms
  by (simp add: WebSocketTransport_log_def sendLogEntry_def bufferMessage_def Let_def returns_def)

text \<open>
  Claim C1. A transport with no \<open>minLevel\<close> admits every entry; with \<open>minLevel = m\<close>
  it admits an entry exactly when the ordinal of the entry's level in
  \<open>debug < info < warn < error < fatal\<close> is at least the ordinal of \<open>m\<close>. So for levels
  \<open>L1 < L2\<close> a transport with \<open>minLevel = L2\<close> rejects \<open>L1\<close> and admits \<open>L2\<close> and
  every level above. Each of the four transports applies this rule first in its
  \<^verbatim>\<open>log\<close>. For a rejected entry the call returns with the transport as it was. An
  admitted entry gets past the gate: the console transport prints one line and the file
  transport writes the entry's line to its stream (both when \<^verbatim>\<open>JSON.stringify\<close>
  returns); the HTTP transport adds the entry to the entries it holds, queued or in a
  batch being sent, or in immediate mode POSTs it; the WebSocket transport sends it on
  an open socket, and otherwise buffers it when buffering is enabled and drops it when
  not.
\<close>

theorem C1_minLevel_admission:
  "shouldLog None l
   \<and> shouldLog (Some m) l = (spec_ordinal m \<le> spec_ordinal l)
   \<and> (spec_ordinal L1 < spec_ordinal L2 \<longrightarrow>
        \<not> shouldLog (Some L2) L1 \<and>
        (\<forall>L. spec_ordinal L2 \<le> spec_ordinal L \<longrightarrow> shouldLog (Some L2) L))
   \<and> (\<not> shouldLog (c_minLevel (c_options ct)) (level entry) \<longrightarrow>
        ConsoleTransport_log lib ct entry = returns ct entry)
   \<and> (shouldLog (c_minLevel (c_options ct)) (level entry) \<and> serialisable lib entry \<longrightarrow>
        (\<exists>line. ConsoleTransport_log lib ct entry =
           returns (ct\<lparr>console_log_output := console_log_output ct @ [line]\<rparr>) entry))
   \<and> (\<not> shouldLog (f_minLevel (f_options ft)) (level entry) \<longrightarrow>
        FileTransport_log lib werr ft entry = returns ft entry)
   \<and> (shouldLog (f_minLevel (f_options ft)) (level entry) \<and> serialisable lib entry \<longrightarrow>
        thrown (FileTransport_log lib werr ft entry) = None \<and>
        (\<exists>line. file_logString lib (f_options ft) entry = Some line \<and>
           filter is_StreamWrite (fs_calls (transport_after (FileTransport_log lib werr ft entry))) =
             filter is_StreamWrite (fs_calls ft) @
             [StreamWrite (case writeStream ft of None \<Rightarrow> currentFilePath ft | Some h \<Rightarrow> h)
                line]))
   \<and> (\<not> shouldLog (h_minLevel (h_options ht)) (level entry) \<longrightarrow>
        HttpTransport_log net ht entry = returns ht entry)
   \<and> (shouldLog (h_minLevel (h_options ht)) (level entry) \<longrightarrow>
        (if truthy_bool (batchLogs (h_options ht))
         then concat (in_flight (transport_after (HttpTransport_log net ht entry))) @
                logQueue (transport_after (HttpTransport_log net ht entry)) =
              concat (in_flight ht) @ logQueue ht @ [entry]
         else \<exists>rest. http_effects (transport_after (HttpTransport_log net ht entry)) =
                http_effects ht @ Post (str_or (h_url (h_options ht)) []) (Single entry) # rest))
   \<and> (\<not> shouldLog (ws_minLevel (ws_options wt)) (level entry) \<longrightarrow>
        WebSocketTransport_log ok wt entry = returns wt entry)
   \<and> (shouldLog (ws_minLevel (ws_options wt)) (level entry) \<longrightarrow>
        (if socket wt = Some OPEN \<and> ok entry
         then WebSocketTransport_log ok wt entry =
                returns (wt\<lparr>ws_effects := ws_effects wt @ [SocketSend entry]\<rparr>) entry
         else if truthy_bool (bufferWhenDisconnected (ws_options wt))
         then \<exists>kept. buffer (transport_after (WebSocketTransport_log ok wt entry)) =
                kept @ [entry]
         else WebSocketTransport_log ok wt entry =
                returns (if socket wt = Some OPEN
                         then wt\<lparr>ws_effects := ws_effects wt @
                                    [WsConsoleError ''Error sending log via WebSocket:'']\<rparr>
                         else wt) entry))"
proof -
  have none: "shouldLog None l"
    by (simp add: shouldLog_def)
  have ord: "shouldLog (Some m) l = (spec_ordinal m \<le> spec_ordinal l)"
    by (rule shouldLog_ordinal)
  have lv: "spec_ordinal L1 < spec_ordinal L2 \<longrightarrow>
        \<not> shouldLog (Some L2) L1 \<and>
        (\<forall>L. spec_ordinal L2 \<le> spec_ordinal L \<longrightarrow> shouldLog (Some L2) L)"
    by (simp add: shouldLog_ordinal)
  have rc: "\<not> shouldLog (c_minLevel (c_options ct)) (level entry) \<longrightarrow>
        ConsoleTransport_log lib ct entry = returns ct entry"
    by (simp add: ConsoleTransport_log_def)
  have ac: "shouldLog (c_minLevel (c_options ct)) (level entry) \<and> serialisable lib entry \<longrightarrow>
        (\<exists>line. ConsoleTransport_log lib ct entry =
           returns (ct\<lparr>console_log_output := console_log_output ct @ [line]\<rparr>) entry)"
    using ConsoleTransport_log_admitted by blast
  have rf: "\<not> shouldLog (f_minLevel (f_options ft)) (level entry) \<longrightarrow>
        FileTransport_log lib werr ft entry = returns ft entry"
    by (simp add: FileTransport_log_def)
  have af: "shouldLog (f_minLevel (f_options ft)) (level entry) \<and> serialisable lib entry \<longrightarrow>
        thrown (FileTransport_log lib werr ft entry) = None \<and>
        (\<exists>line. file_logString lib (f_options ft) entry = Some line \<and>
           filter is_StreamWrite (fs_calls (transport_after (FileTransport_log lib werr ft entry))) =
             filter is_StreamWrite (fs_calls ft) @
             [StreamWrite (case writeStream ft of None \<Rightarrow> currentFilePath ft | Some h \<Rightarrow> h)
                line])"
    using file_logString_serialisable [of lib entry "f_options ft"]
      FileTransport_log_admitted [of ft entry lib _ werr]
    by blast
  have rh: "\<not> shouldLog (h_minLevel (h_options ht)) (level entry) \<longrightarrow>
        HttpTransport_log net ht entry = returns ht entry"
    by (simp add: HttpTransport_log_def)
  have ah: "shouldLog (h_minLevel (h_options ht)) (level entry) \<longrightarrow>
        (if truthy_bool (batchLogs (h_options ht))
         then concat (in_flight (transport_after (HttpTransport_log net ht entry))) @
                logQueue (transport_after (HttpTransport_log net ht entry)) =
              concat (in_flight ht) @ logQueue ht @ [entry]
         else \<exists>rest. http_effects (transport_after (HttpTransport_log net ht entry)) =
                http_effects ht @ Post (str_or (h_url (h_options ht)) []) (Single entry) # rest)"
    using HttpTransport_log_admitted [of ht entry net] by (rule impI)
  have rw: "\<not> shouldLog (ws_minLevel (ws_options wt)) (level entry) \<longrightarrow>
        WebSocketTransport_log ok wt entry = returns wt entry"
    by (simp add: WebSocketTransport_log_def)
  have aw: "shouldLog (ws_minLevel (ws_options wt)) (level entry) \<longrightarrow>
        (if socket wt = Some OPEN \<and> ok entry
         then WebSocketTransport_log ok wt entry =
                returns (wt\<lparr>ws_effects := ws_effects wt @ [SocketSend entry]\<rparr>) entry
         else if truthy_bool (bufferWhenDisconnected (ws_options wt))
         then \<exists>kept. buffer (transport_after (WebSocketTransport_log ok wt entry)) =
                kept @ [entry]
         else WebSocketTransport_log ok wt entry =
                returns (if socket wt = Some OPEN
                         then wt\<lparr>ws_effects := ws_effects wt @
                                    [WsConsoleError ''Error sending log via WebSocket:'']\<rparr>
                         else wt) entry)"
    using WebSocketTransport_log_admitted [of wt entry ok] by (rule impI)
  show ?thesis
    by (intro conjI) (fact none ord lv rc ac rf af rh ah rw aw)+
qed

theorem C1_minLevel_admission_witness:
  "spec_ordinal INFO < spec_ordinal WARN
   \<and> \<not> shouldLog (Some WARN) INFO
   \<and> shouldLog (Some WARN) WARN \<and> shouldLog (Some WARN) ERROR \<and> shouldLog (Some WARN) FATAL
   \<and> shouldLog None DEBUG
   \<and> \<not> shouldLog (c_minLevel (c_options sampleConsole)) (level sampleEntry)
   \<and> ConsoleTransport_log sampleLib sampleConsole sampleEntry = returns sampleConsole sampleEntry
   \<and> \<not> shouldLog (f_minLevel (f_options sampleFile)) (level sampleEntry)
   \<and> FileTransport_log sampleLib False sampleFile sampleEntry = returns sampleFile sampleEntry
   \<and> \<not> shouldLog (h_minLevel (h_options sampleHttp)) (level sampleEntry)
   \<and> HttpTransport_log (\<lambda>k. Rejected) sampleHttp sampleEntry = returns sampleHttp sampleEntry
   \<and> \<not> shouldLog (ws_minLevel (ws_options sampleWs)) (level sampleEntry)
   \<and> WebSocketTransport_log (\<lambda>e. True) sampleWs sampleEntry = returns sampleWs sampleEntry
   \<and> serialisable sampleLib (sampleError ''boom'')
   \<and> shouldLog (c_minLevel (c_options sampleConsole)) (level (sampleError ''boom''))
   \<and> (\<exists>line. ConsoleTransport_log sampleLib sampleConsole (sampleError ''boom'') =
         returns (sampleConsole\<lparr>console_log_output := console_log_output sampleConsole @ [line]\<rparr>)
           (sampleError ''boom''))
   \<and> shouldLog (f_minLevel (f_options sampleFile)) (level (sampleError ''boom''))
   \<and> thrown (FileTransport_log sampleLib False sampleFile (sampleError ''boom'')) = None
   \<and> (\<exists>line. file_logString sampleLib (f_options sampleFile) (sampleError ''boom'') = Some line \<and>
         filter is_StreamWrite (fs_calls (transport_after
           (FileTransport_log sampleLib False sampleFile (sampleError ''boom'')))) =
         filter is_StreamWrite (fs_calls sampleFile) @ [StreamWrite ''test.log'' line])
   \<and> shouldLog (h_minLevel (h_options sampleHttp)) (level (sampleError ''boom''))
   \<and> \<not> truthy_bool (batchLogs (h_options sampleHttp))
   \<and> (\<exists>rest. http_effects (transport_after
           (HttpTransport_log (\<lambda>k. Rejected) sampleHttp (sampleError ''boom''))) =
         http_effects sampleHttp @
         Post ''https://example.com/logs'' (Single (sampleError ''boom'')) # rest)
   \<and> shouldLog (h_minLevel (h_options sampleHttpBatch)) (level (sampleError ''boom''))
   \<and> truthy_bool (batchLogs (h_options sampleHttpBatch))
   \<and> concat (in_flight (transport_after
          (HttpTransport_log (\<lambda>k. Rejected) sampleHttpBatch (sampleError ''boom'')))) @
        logQueue (transport_after
          (HttpTransport_log (\<lambda>k. Rejected) sampleHttpBatch (sampleError ''boom''))) =
        concat (in_flight sampleHttpBatch) @ logQueue sampleHttpBatch @ [sampleError ''boom'']
   \<and> shouldLog (ws_minLevel (ws_options sampleWs)) (level (sampleError ''boom''))
   \<and> socket sampleWs \<noteq> Some OPEN
   \<and> truthy_bool (bufferWhenDisconnected (ws_options sampleWs))
   \<and> (\<exists>kept. buffer (transport_after
           (WebSocketTransport_log (\<lambda>e. True) sampleWs (sampleError ''boom''))) =
         kept @ [sampleError ''boom''])
   \<and> shouldLog (ws_minLevel (ws_options (sampleWs\<lparr>socket := Some OPEN\<rparr>)))
        (level (sampleError ''boom''))
   \<and> WebSocketTransport_log (\<lambda>e. True) (sampleWs\<lparr>socket := Some OPEN\<rparr>) (sampleError ''boom'') =
        returns (sampleWs\<lparr>socket := Some OPEN,
                          ws_effects := ws_effects (sampleWs\<lparr>socket := Some OPEN\<rparr>) @
                            [SocketSend (sampleError ''boom'')]\<rparr>)
          (sampleError ''boom'')"
proof -
  have o: "spec_ordinal INFO < spec_ordinal WARN"
    by simp
  have c: "\<not> shouldLog (c_minLevel (c_options sampleConsole)) (level sampleEntry)"
    "shouldLog (c_minLevel (c_options sampleConsole)) (level (sampleError ''boom''))"
    by (simp_all add: shouldLog_ordinal sampleConsole_def ConsoleTransport_constructor_def
        sampleEntry_def sampleError_def)
  have f: "\<not> shouldLog (f_minLevel (f_options sampleFile)) (level sampleEntry)"
    "shouldLog (f_minLevel (f_options sampleFile)) (level (sampleError ''boom''))"
    "writeStream sampleFile = Some ''test.log''"
    by (simp_all add: shouldLog_ordinal sampleFile_def sampleEntry_def sampleError_def)
  have h: "\<not> shouldLog (h_minLevel (h_options sampleHttp)) (level sampleEntry)"
    "shouldLog (h_minLevel (h_options sampleHttp)) (level (sampleError ''boom''))"
    "\<not> truthy_bool (batchLogs (h_options sampleHttp))"
    "str_or (h_url (h_options sampleHttp)) [] = ''https://example.com/logs''"
    by (simp_all add: shouldLog_ordinal sampleHttp_def sampleHttpOptions_def sampleEntry_def
        sampleError_def truthy_bool_def str_or_def)
  have b: "shouldLog (h_minLevel (h_options sampleHttpBatch)) (level (sampleError ''boom''))"
    "truthy_bool (batchLogs (h_options sampleHttpBatch))"
    by (simp_all add: shouldLog_ordinal sampleHttpBatch_def sampleHttpBatchOptions_def
        sampleError_def truthy_bool_def)
  have w: "\<not> shouldLog (ws_minLevel (ws_options sampleWs)) (level sampleEntry)"
    "shouldLog (ws_minLevel (ws_options sampleWs)) (level (sampleError ''boom''))"
    "socket sampleWs \<noteq> Some OPEN"
    "truthy_bool (bufferWhenDisconnected (ws_options sampleWs))"
    by (simp_all add: shouldLog_ordinal sampleWs_def sampleWsOptions_def sampleEntry_def
        sampleError_def truthy_bool_def)
  have s: "serialisable sampleLib (sampleError ''boom'')"
    by (simp add: serialisable_def sampleLib_def sampleError_def sampleEntry_def
        sample_stringify_meta_def)
  show ?thesis
    using o c f h b w s
      C1_minLevel_admission [where l = DEBUG and m = WARN and ?L1.0 = INFO and ?L2.0 = WARN
        and ct = sampleConsole and entry = sampleEntry and lib = sampleLib and ft = sampleFile
        and werr = False and ht = sampleHttp and net = "\<lambda>k. Rejected" and wt = sampleWs
        and ok = "\<lambda>e. True"]
      C1_minLevel_admission [where l = DEBUG and m = WARN and ?L1.0 = INFO and ?L2.0 = WARN
        and ct = sampleConsole and entry = "sampleError ''boom''" and lib = sampleLib
        and ft = sampleFile and werr = False and ht = sampleHttp and net = "\<lambda>k. Rejected"
        and wt = sampleWs and ok = "\<lambda>e. True"]
      C1_minLevel_admission [where l = DEBUG and m = WARN and ?L1.0 = INFO and ?L2.0 = WARN
        and ct = sampleConsole and entry = "sampleError ''boom''" and lib = sampleLib
        and ft = sampleFile and werr = False and ht = sampleHttpBatch and net = "\<lambda>k. Rejected"
        and wt = "sampleWs\<lparr>socket := Some OPEN\<rparr>" and ok = "\<lambda>e. True"]
    by simp
qed

section \<open>HTTP transport: retries in immediate mode\<close>

lemma replicate_two: "replicate 2 x = [x, x]"
  by (simp add: numeral_2_eq_2)

lemma sendLog_all_fail:
  assumes fail: "\<And>k. \<not> response_ok (net k)"
  shows "num_or (retryCount options) 0 - retryAttempt = j \<Longrightarrow>
     sendLog options net entry retryAttempt =
       concat (replicate j
         (failed_attempt options entry @ [Pause (num_or (retryDelay options) 1000)]))
       @ failed_attempt options entry"
proof (induction j arbitrary: retryAttempt)
  case 0
  then have "\<not> retryAttempt < num_or (retryCount options) 0"
    by simp
  then show ?case
    using fail by (subst sendLog.simps) (simp add: failed_attempt_def)
next
  case (Suc j)
  then have lt: "retryAttempt < num_or (retryCount options) 0"
    and rest: "num_or (retryCount options) 0 - (retryAttempt + 1) = j"
    by simp_all
  show ?case
    using fail lt Suc.IH [OF rest]
    by (subst sendLog.simps) (simp add: failed_attempt_def)
qed

lemma count_posts:
  "length (filter is_Post (concat (replicate n (failed_attempt options entry @ [Pause d]))
     @ failed_attempt options entry)) = n + 1"
  by (induction n) (simp_all add: failed_attempt_def)

text \<open>
  Claim C2, as amended. In immediate mode, when every POST of an admitted entry fails and
  the options hold \<open>retryCount = n\<close> and \<open>retryDelay = d\<close>, \<^verbatim>\<open>log\<close> makes exactly
  \<open>n + 1\<close> POSTs of the entry, each followed by an error on the console, with one pause
  between consecutive POSTs; the pause is \<open>d\<close> milliseconds, and 1000 when \<open>d\<close> is 0.
  After the last failure the promise resolves: no exception reaches the caller, and the
  queue and the suspended batches are as before (the entry is dropped).
\<close>

theorem C2_immediate_retry:
  assumes "\<forall>k. \<not> response_ok (net k)"
    and "shouldLog (h_minLevel (h_options this)) (level entry)"
    and "\<not> truthy_bool (batchLogs (h_options this))"
    and "retryCount (h_options this) = Some n"
    and "retryDelay (h_options this) = Some d"
  shows "sendLog (h_options this) net entry 0 =
           concat (replicate n
             (failed_attempt (h_options this) entry @ [Pause (if d = 0 then 1000 else d)]))
           @ failed_attempt (h_options this) entry
     \<and> length (filter is_Post (sendLog (h_options this) net entry 0)) = n + 1
     \<and> HttpTransport_log net this entry =
           returns (this\<lparr>http_effects := http_effects this @ sendLog (h_options this) net entry 0\<rparr>)
             entry
     \<and> thrown (HttpTransport_log net this entry) = None
     \<and> logQueue (transport_after (HttpTransport_log net this entry)) = logQueue this
     \<and> in_flight (transport_after (HttpTransport_log net this entry)) = in_flight this"
proof -
  have rc: "num_or (retryCount (h_options this)) 0 = n"
    using assms(4) by (simp add: num_or_def)
  have rd: "num_or (retryDelay (h_options this)) 1000 = (if d = 0 then 1000 else d)"
    using assms(5) by (simp add: num_or_def)
  have s: "sendLog (h_options this) net entry 0 =
           concat (replicate n
             (failed_attempt (h_options this) entry @ [Pause (if d = 0 then 1000 else d)]))
           @ failed_attempt (h_options this) entry"
    using sendLog_all_fail [of net "h_options this" 0 n entry] assms(1) rc rd by simp
  have c: "length (filter is_Post (sendLog (h_options this) net entry 0)) = n + 1"
    unfolding s by (rule count_posts)
  have l: "HttpTransport_log net this entry =
           returns (this\<lparr>http_effects := http_effects this @ sendLog (h_options this) net entry 0\<rparr>)
             entry"
    using assms(2,3) by (simp add: HttpTransport_log_def)
  show ?thesis
    using s c l by (simp add: returns_def)
qed

theorem C2_immediate_retry_witness:
  "(\<forall>k. \<not> response_ok (Response 500))
   \<and> shouldLog (h_minLevel (h_options sampleHttp)) (level (sampleEntry\<lparr>level := ERROR\<rparr>))
   \<and> \<not> truthy_bool (batchLogs (h_options sampleHttp))
   \<and> retryCount (h_options sampleHttp) = Some 2
   \<and> retryDelay (h_options sampleHttp) = Some 50
   \<and> sendLog (h_options sampleHttp) (\<lambda>k. Response 500) (sampleEntry\<lparr>level := ERROR\<rparr>) 0 =
        [Post ''https://example.com/logs'' (Single (sampleEntry\<lparr>level := ERROR\<rparr>)),
         HttpConsoleError ''HTTP transport log sending failed:'',
         Pause 50,
         Post ''https://example.com/logs'' (Single (sampleEntry\<lparr>level := ERROR\<rparr>)),
         HttpConsoleError ''HTTP transport log sending failed:'',
         Pause 50,
         Post ''https://example.com/logs'' (Single (sampleEntry\<lparr>level := ERROR\<rparr>)),
         HttpConsoleError ''HTTP transport log sending failed:'']
   \<and> length (filter is_Post
        (sendLog (h_options sampleHttp) (\<lambda>k. Response 500) (sampleEntry\<lparr>level := ERROR\<rparr>) 0)) = 3
   \<and> thrown (HttpTransport_log (\<lambda>k. Response 500) sampleHttp (sampleEntry\<lparr>level := ERROR\<rparr>)) = None
   \<and> logQueue (transport_after
        (HttpTransport_log (\<lambda>k. Response 500) sampleHttp (sampleEntry\<lparr>level := ERROR\<rparr>))) = []"
proof -
  have a: "\<forall>k. \<not> response_ok ((\<lambda>k. Response 500) k)"
    by simp
  have b: "shouldLog (h_minLevel (h_options sampleHttp)) (level (sampleEntry\<lparr>level := ERROR\<rparr>))"
    by (simp add: shouldLog_ordinal sampleHttp_def sampleHttpOptions_def)
  have c: "\<not> truthy_bool (batchLogs (h_options sampleHttp))"
    by (simp add: truthy_bool_def sampleHttp_def sampleHttpOptions_def)
  have d: "retryCount (h_options sampleHttp) = Some 2"
    by (simp add: sampleHttp_def sampleHttpOptions_def)
  have e: "retryDelay (h_options sampleHttp) = Some 50"
    by (simp add: sampleHttp_def sampleHttpOptions_def)
  have u: "str_or (h_url (h_options sampleHttp)) [] = ''https://example.com/logs''"
    by (simp add: str_or_def sampleHttp_def sampleHttpOptions_def)
  have q: "logQueue sampleHttp = []"
    by (simp add: sampleHttp_def)
  show ?thesis
    using C2_immediate_retry [OF a b c d e] b c d e u q
    by (simp add: failed_attempt_def replicate_two returns_def)
qed

theorem C2_zero_retryDelay_counterexample:
  "retryDelay (sampleHttpOptions\<lparr>retryCount := Some 1, retryDelay := Some 0\<rparr>) = Some 0
   \<and> sendLog (sampleHttpOptions\<lparr>retryCount := Some 1, retryDelay := Some 0\<rparr>)
        (\<lambda>k. Rejected) sampleEntry 0 =
        [Post ''https://example.com/logs'' (Single sampleEntry),
         HttpConsoleError ''HTTP transport log sending failed:'',
         Pause 1000,
         Post ''https://example.com/logs'' (Single sampleEntry),
         HttpConsoleError ''HTTP transport log sending failed:'']
   \<and> Pause 0 \<notin> set (sendLog (sampleHttpOptions\<lparr>retryCount := Some 1, retryDelay := Some 0\<rparr>)
        (\<lambda>k. Rejected) sampleEntry 0)"
  by (simp add: sendLog.simps sampleHttpOptions_def num_or_def str_or_def)

section \<open>HTTP transport: batches\<close>

lemma scheduleBatch_fields:
  "logQueue (scheduleBatch this) = logQueue this"
  "in_flight (scheduleBatch this) = in_flight this"
  "h_options (scheduleBatch this) = h_options this"
  "batchTimeoutId (scheduleBatch this) = Some (next_timer this)"
  "next_timer (scheduleBatch this) = Suc (next_timer this)"
  "http_effects (scheduleBatch this) =
     http_effects this @
     (case batchTimeoutId this of None \<Rightarrow> [] | Some t \<Rightarrow> [ClearTimeout t]) @
     [SetTimeout (next_timer this) (num_or (batchTimeout (h_options this)) 5000)]"
  by (simp_all add: scheduleBatch_def Let_def split: option.split)

lemma sendBatch_resume_fields:
  assumes "k < length (in_flight this)"
  shows "logQueue (sendBatch_resume k outcome this) =
           (if response_ok outcome then logQueue this else in_flight this ! k @ logQueue this)"
    and "in_flight (sendBatch_resume k outcome this) =
           take k (in_flight this) @ drop (Suc k) (in_flight this)"
    and "h_options (sendBatch_resume k outcome this) = h_options this"
    and "batchTimeoutId (sendBatch_resume k outcome this) = Some (next_timer this)"
    and "http_effects (sendBatch_resume k outcome this) =
           http_effects this @
           (if response_ok outcome then []
            else [HttpConsoleError ''HTTP transport batch sending failed:'']) @
           (case batchTimeoutId this of None \<Rightarrow> [] | Some t \<Rightarrow> [ClearTimeout t]) @
           [SetTimeout (next_timer this) (num_or (batchTimeout (h_options this)) 5000)]"
  using assms by (simp_all add: sendBatch_resume_def Let_def scheduleBatch_fields)

lemma HttpTransport_log_batch:
  assumes "shouldLog (h_minLevel (h_options this)) (level entry)"
    and "truthy_bool (batchLogs (h_options this))"
  shows "HttpTransport_log net this entry =
     returns
       (if num_or (batchSize (h_options this)) 10 \<le> length (logQueue this @ [entry])
        then this\<lparr>logQueue := [],
                  in_flight := in_flight this @ [logQueue this @ [entry]],
                  http_effects := http_effects this @
                    [Post (str_or (h_url (h_options this)) []) (Batch (logQueue this @ [entry]))]\<rparr>
        else this\<lparr>logQueue := logQueue this @ [entry]\<rparr>) entry"
  using assms by (simp add: HttpTransport_log_def Let_def sendBatch_start_def)


text \<open>
  Claim C4. When the POST of a batch fails, the whole batch is put back in front of the
  live queue, in its own order and ahead of the entries enqueued since it was taken; no
  POST is issued for it on the failure (no entry is retried on its own) and none of its
  entries is lost. The next flush sends the batch followed by the newer entries as one
  POST. (A suspended batch is never empty, see \<open>in_flight_never_empty\<close> below.)
\<close>

theorem C4_failed_batch_requeued:
  assumes "k < length (in_flight this)"
    and "\<not> response_ok outcome"
    and "in_flight this ! k \<noteq> []"
  shows "logQueue (sendBatch_resume k outcome this) = in_flight this ! k @ logQueue this
     \<and> in_flight (sendBatch_resume k outcome this) =
          take k (in_flight this) @ drop (Suc k) (in_flight this)
     \<and> filter is_Post (http_effects (sendBatch_resume k outcome this)) =
          filter is_Post (http_effects this)
     \<and> http_effects (sendBatch_start (sendBatch_resume k outcome this)) =
          http_effects (sendBatch_resume k outcome this) @
          [Post (str_or (h_url (h_options this)) []) (Batch (in_flight this ! k @ logQueue this))]
     \<and> logQueue (sendBatch_start (sendBatch_resume k outcome this)) = []"
proof -
  have q: "logQueue (sendBatch_resume k outcome this) = in_flight this ! k @ logQueue this"
    using assms(1,2) by (simp add: sendBatch_resume_fields)
  have f: "filter is_Post (http_effects (sendBatch_resume k outcome this)) =
          filter is_Post (http_effects this)"
    using assms(1,2) by (simp add: sendBatch_resume_fields split: option.split)
  have n: "logQueue (sendBatch_resume k outcome this) \<noteq> []"
    using q assms(3) by simp
  have s: "http_effects (sendBatch_start (sendBatch_resume k outcome this)) =
          http_effects (sendBatch_resume k outcome this) @
          [Post (str_or (h_url (h_options this)) []) (Batch (in_flight this ! k @ logQueue this))]"
    using n q assms(1) by (simp add: sendBatch_start_def Let_def sendBatch_resume_fields(3))
  have e: "logQueue (sendBatch_start (sendBatch_resume k outcome this)) = []"
    by (simp add: sendBatch_start_def Let_def)
  show ?thesis
    using q f s e assms(1) by (simp add: sendBatch_resume_fields(2))
qed

lemma sampleHttpBatch_simps:
  "h_options sampleHttpBatch = sampleHttpBatchOptions"
  "logQueue sampleHttpBatch = []"
  "in_flight sampleHttpBatch = []"
  "http_effects sampleHttpBatch = []"
  "batchTimeoutId sampleHttpBatch = None"
  "next_timer sampleHttpBatch = 0"
  by (simp_all add: sampleHttpBatch_def)

lemma sampleHttpBatchOptions_simps:
  "num_or (batchSize sampleHttpBatchOptions) 10 = 2"
  "num_or (batchTimeout sampleHttpBatchOptions) 5000 = 5000"
  "str_or (h_url sampleHttpBatchOptions) [] = ''https://example.com/logs''"
  "truthy_bool (batchLogs sampleHttpBatchOptions)"
  "shouldLog (h_minLevel sampleHttpBatchOptions) (level (sampleError msg))"
  by (simp_all add: sampleHttpBatchOptions_def num_or_def str_or_def truthy_bool_def
      shouldLog_ordinal sampleError_def)


lemma sampleInFlight_simps:
  "h_options sampleInFlight = sampleHttpBatchOptions"
  "logQueue sampleInFlight = [sampleError ''third'']"
  "in_flight sampleInFlight = [[sampleError ''first'', sampleError ''second'']]"
  "http_effects sampleInFlight =
     [Post ''https://example.com/logs'' (Batch [sampleError ''first'', sampleError ''second''])]"
  "batchTimeoutId sampleInFlight = None"
  "next_timer sampleInFlight = 0"
  by (simp_all add: sampleInFlight_def sampleHttpBatch_def)



theorem C4_failed_batch_requeued_witness:
  "0 < length (in_flight sampleInFlight)
   \<and> \<not> response_ok (Response 503)
   \<and> in_flight sampleInFlight ! 0 \<noteq> []
   \<and> transport_after (HttpTransport_log (\<lambda>k. Rejected)
        (transport_after (HttpTransport_log (\<lambda>k. Rejected)
          (transport_after (HttpTransport_log (\<lambda>k. Rejected) sampleHttpBatch
            (sampleError ''first'')))
          (sampleError ''second'')))
        (sampleError ''third'')) = sampleInFlight
   \<and> logQueue (sendBatch_resume 0 (Response 503) sampleInFlight) =
        [sampleError ''first'', sampleError ''second'', sampleError ''third'']
   \<and> in_flight (sendBatch_resume 0 (Response 503) sampleInFlight) = []
   \<and> filter is_Post (http_effects (sendBatch_resume 0 (Response 503) sampleInFlight)) =
        [Post ''https://example.com/logs''
           (Batch [sampleError ''first'', sampleError ''second''])]
   \<and> http_effects (batch_timer_fires (sendBatch_resume 0 (Response 503) sampleInFlight)) =
        [Post ''https://example.com/logs''
           (Batch [sampleError ''first'', sampleError ''second'']),
         HttpConsoleError ''HTTP transport batch sending failed:'',
         SetTimeout 0 5000,
         Post ''https://example.com/logs''
           (Batch [sampleError ''first'', sampleError ''second'', sampleError ''third''])]"
proof -
  have a: "0 < length (in_flight sampleInFlight)"
    by (simp add: sampleInFlight_simps)
  have b: "\<not> response_ok (Response 503)"
    by simp
  have c: "in_flight sampleInFlight ! 0 \<noteq> []"
    by (simp add: sampleInFlight_simps)
  have r: "http_effects (sendBatch_resume 0 (Response 503) sampleInFlight) =
        [Post ''https://example.com/logs''
           (Batch [sampleError ''first'', sampleError ''second'']),
         HttpConsoleError ''HTTP transport batch sending failed:'',
         SetTimeout 0 5000]"
    using a by (simp add: sendBatch_resume_fields sampleInFlight_simps sampleHttpBatchOptions_simps)
  have s1: "transport_after (HttpTransport_log (\<lambda>k. Rejected) sampleHttpBatch
      (sampleError ''first'')) = sampleHttpBatch\<lparr>logQueue := [sampleError ''first'']\<rparr>"
    by (subst HttpTransport_log_batch)
      (simp_all add: sampleHttpBatch_simps sampleHttpBatchOptions_simps returns_def)
  have s2: "transport_after (HttpTransport_log (\<lambda>k. Rejected)
      (sampleHttpBatch\<lparr>logQueue := [sampleError ''first'']\<rparr>) (sampleError ''second'')) =
      sampleHttpBatch\<lparr>logQueue := [],
        in_flight := [[sampleError ''first'', sampleError ''second'']],
        http_effects := [Post ''https://example.com/logs''
                           (Batch [sampleError ''first'', sampleError ''second''])]\<rparr>"
    by (subst HttpTransport_log_batch)
      (simp_all add: sampleHttpBatch_simps sampleHttpBatchOptions_simps returns_def)
  have s3: "transport_after (HttpTransport_log (\<lambda>k. Rejected)
      (sampleHttpBatch\<lparr>logQueue := [],
        in_flight := [[sampleError ''first'', sampleError ''second'']],
        http_effects := [Post ''https://example.com/logs''
                           (Batch [sampleError ''first'', sampleError ''second''])]\<rparr>)
      (sampleError ''third'')) = sampleInFlight"
    by (subst HttpTransport_log_batch)
      (simp_all add: sampleHttpBatch_simps sampleHttpBatchOptions_simps returns_def
        sampleInFlight_def)
  have run: "transport_after (HttpTransport_log (\<lambda>k. Rejected)
        (transport_after (HttpTransport_log (\<lambda>k. Rejected)
          (transport_after (HttpTransport_log (\<lambda>k. Rejected) sampleHttpBatch
            (sampleError ''first'')))
          (sampleError ''second'')))
        (sampleError ''third'')) = sampleInFlight"
    by (simp only: s1 s2 s3)
  show ?thesis
    using C4_failed_batch_requeued [OF a b c] a b c r run
    by (simp add: batch_timer_fires_def sampleInFlight_simps sampleHttpBatchOptions_simps)
qed

text \<open>
  The order of the queue is the order of the calls of \<^verbatim>\<open>log\<close> as long as at most one
  batch is suspended. When two batches are suspended and both fail, the one that fails
  later is put in front of the one that failed first, whichever was logged first.
\<close>

lemma sampleHttpBatch_log:
  assumes "h_options t = sampleHttpBatchOptions"
  shows "transport_after (HttpTransport_log net t (sampleError msg)) =
     (if 2 \<le> length (logQueue t @ [sampleError msg])
      then t\<lparr>logQueue := [],
             in_flight := in_flight t @ [logQueue t @ [sampleError msg]],
             http_effects := http_effects t @
               [Post ''https://example.com/logs'' (Batch (logQueue t @ [sampleError msg]))]\<rparr>
      else t\<lparr>logQueue := logQueue t @ [sampleError msg]\<rparr>)"
  by (subst HttpTransport_log_batch)
    (simp_all add: assms sampleHttpBatchOptions_simps returns_def)

lemma overlapping_failed_batches:
  "in_flight (HttpTransport_log_each (\<lambda>k. Rejected) sampleHttpBatch
       [sampleError ''first'', sampleError ''second'', sampleError ''third'', sampleError ''fourth'']) =
     [[sampleError ''first'', sampleError ''second''], [sampleError ''third'', sampleError ''fourth'']]
   \<and> logQueue (sendBatch_resume 0 Rejected (sendBatch_resume 0 Rejected
       (HttpTransport_log_each (\<lambda>k. Rejected) sampleHttpBatch
         [sampleError ''first'', sampleError ''second'', sampleError ''third'', sampleError ''fourth'']))) =
     [sampleError ''third'', sampleError ''fourth'', sampleError ''first'', sampleError ''second'']"
proof -
  let ?s = "HttpTransport_log_each (\<lambda>k. Rejected) sampleHttpBatch
       [sampleError ''first'', sampleError ''second'', sampleError ''third'', sampleError ''fourth'']"
  have s: "?s = sampleHttpBatch
      \<lparr>logQueue := [],
       in_flight := [[sampleError ''first'', sampleError ''second''],
                     [sampleError ''third'', sampleError ''fourth'']],
       http_effects :=
         [Post ''https://example.com/logs'' (Batch [sampleError ''first'', sampleError ''second'']),
          Post ''https://example.com/logs'' (Batch [sampleError ''third'', sampleError ''fourth''])]\<rparr>"
    by (simp add: HttpTransport_log_each_def sampleHttpBatch_log sampleHttpBatch_simps)
  have f: "in_flight ?s = [[sampleError ''first'', sampleError ''second''],
                     [sampleError ''third'', sampleError ''fourth'']]"
    "logQueue ?s = []"
    unfolding s by simp_all
  have r1: "logQueue (sendBatch_resume 0 Rejected ?s) = [sampleError ''first'', sampleError ''second'']"
    "in_flight (sendBatch_resume 0 Rejected ?s) = [[sampleError ''third'', sampleError ''fourth'']]"
    by (simp_all add: sendBatch_resume_fields f)
  have "logQueue (sendBatch_resume 0 Rejected (sendBatch_resume 0 Rejected ?s)) =
     [sampleError ''third'', sampleError ''fourth'', sampleError ''first'', sampleError ''second'']"
    by (simp add: sendBatch_resume_fields r1)
  then show ?thesis
    using f by simp
qed

text \<open>A suspended batch is never empty: \<^verbatim>\<open>sendBatch\<close> returns on an empty queue.\<close>

lemma sendBatch_start_never_empty:
  "[] \<notin> set (in_flight this) \<Longrightarrow> [] \<notin> set (in_flight (sendBatch_start this))"
  by (simp add: sendBatch_start_def Let_def)

lemma in_flight_never_empty:
  assumes "[] \<notin> set (in_flight this)"
  shows "[] \<notin> set (in_flight (transport_after (HttpTransport_log net this entry)))"
    and "[] \<notin> set (in_flight (sendBatch_resume k outcome this))"
proof -
  show "[] \<notin> set (in_flight (transport_after (HttpTransport_log net this entry)))"
    using assms sendBatch_start_never_empty [of "this\<lparr>logQueue := logQueue this @ [entry]\<rparr>"]
    by (simp add: HttpTransport_log_def returns_def Let_def)
  show "[] \<notin> set (in_flight (sendBatch_resume k outcome this))"
  proof (cases "k < length (in_flight this)")
    case True
    have "set (take k (in_flight this) @ drop (Suc k) (in_flight this)) \<subseteq> set (in_flight this)"
      using set_take_subset set_drop_subset by fastforce
    then show ?thesis
      using assms True by (auto simp add: sendBatch_resume_fields(2))
  next
    case False
    then show ?thesis
      using assms by (simp add: sendBatch_resume_def)
  qed
qed

section \<open>Construction errors\<close>

lemma truthy_str_iff: "truthy_str u = (\<exists>s. u = Some s \<and> s \<noteq> [])"
  by (cases u) (simp_all add: truthy_str_def)

text \<open>
  Claim C9. The constructor of an HttpTransport or a WebSocketTransport throws
  \<^verbatim>\<open>URL must be specified ...\<close>, and that of a FileTransport throws
  \<^verbatim>\<open>Filename must be specified ...\<close>, exactly when the required option is missing, where
  an empty string counts as missing; the error is the result of the constructor itself.
  With the option present (a non-empty string) the constructor returns a transport.
\<close>

theorem C9_missing_required_option:
  "truthy_str u = (\<exists>s. u = Some s \<and> s \<noteq> [])
   \<and> ((HttpTransport_constructor ho :: string + 'm HttpTransport) =
          Inl ''URL must be specified for HttpTransport'') = (\<not> truthy_str (h_url ho))
   \<and> isl (HttpTransport_constructor ho :: string + 'm HttpTransport) = (\<not> truthy_str (h_url ho))
   \<and> ((WebSocketTransport_constructor ctor_throws wo :: string + 'm WebSocketTransport) =
          Inl ''URL must be specified for WebSocketTransport'') = (\<not> truthy_str (ws_url wo))
   \<and> isl (WebSocketTransport_constructor ctor_throws wo :: string + 'm WebSocketTransport) =
          (\<not> truthy_str (ws_url wo))
   \<and> (FileTransport_constructor lib fs dirs fo =
          Inl ''Filename must be specified for FileTransport'') = (\<not> truthy_str (filename fo))
   \<and> isl (FileTransport_constructor lib fs dirs fo) = (\<not> truthy_str (filename fo))"
  by (simp add: truthy_str_iff [symmetric] HttpTransport_constructor_def
      WebSocketTransport_constructor_def FileTransport_constructor_def Let_def)

theorem C9_missing_required_option_witness:
  "(HttpTransport_constructor sampleHttpNoUrl :: string + sample_meta HttpTransport) =
     Inl ''URL must be specified for HttpTransport''
   \<and> \<not> isl (HttpTransport_constructor sampleHttpOptions :: string + sample_meta HttpTransport)
   \<and> (WebSocketTransport_constructor False sampleWsEmptyUrl :: string + sample_meta WebSocketTransport) =
     Inl ''URL must be specified for WebSocketTransport''
   \<and> \<not> isl (WebSocketTransport_constructor False sampleWsOptions :: string + sample_meta WebSocketTransport)
   \<and> FileTransport_constructor sampleLib sampleFullDisk {} (sampleFullOptions\<lparr>filename := None\<rparr>) =
     Inl ''Filename must be specified for FileTransport''
   \<and> \<not> isl (FileTransport_constructor sampleLib sampleFullDisk {} sampleFullOptions)"
proof -
  have u: "\<not> truthy_str (h_url sampleHttpNoUrl)" "truthy_str (h_url sampleHttpOptions)"
    "\<not> truthy_str (ws_url sampleWsEmptyUrl)" "truthy_str (ws_url sampleWsOptions)"
    "\<not> truthy_str (filename (sampleFullOptions\<lparr>filename := None\<rparr>))"
    "truthy_str (filename sampleFullOptions)"
    by (simp_all add: truthy_str_def sampleHttpNoUrl_def sampleHttpOptions_def sampleWsEmptyUrl_def
        sampleWsOptions_def sampleFullOptions_def)
  show ?thesis
    using u
      C9_missing_required_option [where ho = sampleHttpNoUrl and wo = sampleWsEmptyUrl
        and fo = "sampleFullOptions\<lparr>filename := None\<rparr>" and ctor_throws = False
        and lib = sampleLib and fs = sampleFullDisk and dirs = "{}", where ?'m = sample_meta]
      C9_missing_required_option [where ho = sampleHttpOptions and wo = sampleWsOptions
        and fo = sampleFullOptions and ctor_throws = False
        and lib = sampleLib and fs = sampleFullDisk and dirs = "{}", where ?'m = sample_meta]
    by simp
qed

section \<open>WebSocket transport: reconnection without a ceiling\<close>

lemma handleClose_zero_ceiling:
  assumes "truthy_bool (reconnect (ws_options this))"
    and "maxReconnectAttempts (ws_options this) = Some 0"
  shows "handleClose this =
     scheduleReconnect (this\<lparr>ws_effects := ws_effects this @ [WsConsoleLog ''WebSocket connection closed.'']\<rparr>)"
  using assms by (simp add: handleClose_def Let_def truthy_num_def)

lemma scheduleReconnect_fields:
  "ws_options (scheduleReconnect this) = ws_options this"
  "reconnectAttempts (scheduleReconnect this) = reconnectAttempts this + 1"
  "reconnectTimer (scheduleReconnect this) = Some (ws_next_timer this)"
  "ws_next_timer (scheduleReconnect this) = Suc (ws_next_timer this)"
  "socket (scheduleReconnect this) = socket this"
  "buffer (scheduleReconnect this) = buffer this"
  "isConnecting (scheduleReconnect this) = isConnecting this"
  "ws_effects (scheduleReconnect this) =
     ws_effects this @
     (case reconnectTimer this of None \<Rightarrow> [] | Some t \<Rightarrow> [WsClearTimeout t]) @
     [WsSetTimeout (ws_next_timer this) (reconnectInterval (ws_options this))]"
  by (simp_all add: scheduleReconnect_def Let_def split: option.split)

lemma socket_closes_zero_ceiling:
  assumes "truthy_bool (reconnect (ws_options this))"
    and "maxReconnectAttempts (ws_options this) = Some 0"
  shows "ws_options (socket_closes this) = ws_options this"
    and "reconnectAttempts (socket_closes this) = reconnectAttempts this + 1"
    and "reconnectTimer (socket_closes this) = Some (ws_next_timer this)"
    and "ws_effects (socket_closes this) =
           ws_effects this @ [WsConsoleLog ''WebSocket connection closed.''] @
           (case reconnectTimer this of None \<Rightarrow> [] | Some t \<Rightarrow> [WsClearTimeout t]) @
           [WsSetTimeout (ws_next_timer this) (reconnectInterval (ws_options this))]"
  using assms
  by (simp_all add: socket_closes_def handleClose_zero_ceiling scheduleReconnect_fields
      split: option.split)

lemma connect_ok_fields:
  "ws_options (connect False this) = ws_options this"
  "reconnectAttempts (connect False this) = reconnectAttempts this"
  by (simp_all add: connect_def Let_def)

lemma failed_reconnect_zero_ceiling:
  assumes "truthy_bool (reconnect (ws_options this))"
    and "maxReconnectAttempts (ws_options this) = Some 0"
  shows "ws_options (failed_reconnect this) = ws_options this"
    and "reconnectAttempts (failed_reconnect this) = reconnectAttempts this + 1"
  using assms
  by (simp_all add: failed_reconnect_def reconnect_timer_fires_def socket_closes_zero_ceiling
      connect_ok_fields)

lemma failed_reconnects_zero_ceiling:
  assumes "truthy_bool (reconnect (ws_options this))"
    and "maxReconnectAttempts (ws_options this) = Some 0"
  shows "ws_options ((failed_reconnect ^^ n) this) = ws_options this \<and>
         reconnectAttempts ((failed_reconnect ^^ n) this) = reconnectAttempts this + n"
  using assms by (induction n) (simp_all add: failed_reconnect_zero_ceiling)

lemma constructor_zero_ceiling:
  assumes "truthy_str (ws_url options)"
    and "reconnect options = None \<or> reconnect options = Some True"
    and "maxReconnectAttempts options = Some 0"
  shows "\<exists>this. WebSocketTransport_constructor ctor_throws options = Inr this
           \<and> truthy_bool (reconnect (ws_options this))
           \<and> maxReconnectAttempts (ws_options this) = Some 0"
  using assms
  by (auto simp add: WebSocketTransport_constructor_def Let_def connect_def with_default_def
      truthy_bool_def handleClose_def truthy_num_def scheduleReconnect_def split: option.split)

text \<open>
  Claim C10. A WebSocketTransport constructed with a URL, with reconnection enabled (by
  default or explicitly) and with \<open>maxReconnectAttempts = 0\<close> keeps these options; in every
  state with these options a close of the socket schedules a reconnection (the attempt
  counter grows by one and a new timer is set), whatever the counter is, so after any number
  \<open>n\<close> of failed reconnections in a row the counter stands at \<open>n\<close> more: the
  attempts are not bounded.
\<close>

theorem C10_zero_maxReconnectAttempts:
  assumes "truthy_str (ws_url options)"
    and "reconnect options = None \<or> reconnect options = Some True"
    and "maxReconnectAttempts options = Some 0"
  shows "\<exists>this0 :: 'm WebSocketTransport.
             WebSocketTransport_constructor ctor_throws options = Inr this0
           \<and> truthy_bool (reconnect (ws_options this0))
           \<and> maxReconnectAttempts (ws_options this0) = Some 0
           \<and> (\<forall>this :: 'm WebSocketTransport. ws_options this = ws_options this0 \<longrightarrow>
                reconnectAttempts (socket_closes this) = reconnectAttempts this + 1
              \<and> reconnectTimer (socket_closes this) = Some (ws_next_timer this)
              \<and> ws_effects (socket_closes this) =
                   ws_effects this @ [WsConsoleLog ''WebSocket connection closed.''] @
                   (case reconnectTimer this of None \<Rightarrow> [] | Some t \<Rightarrow> [WsClearTimeout t]) @
                   [WsSetTimeout (ws_next_timer this) (reconnectInterval (ws_options this))])
           \<and> (\<forall>n. reconnectAttempts ((failed_reconnect ^^ n) this0) = reconnectAttempts this0 + n)"
proof -
  obtain this0 :: "'m WebSocketTransport" where c: "WebSocketTransport_constructor ctor_throws options = Inr this0"
    and r: "truthy_bool (reconnect (ws_options this0))"
    and m: "maxReconnectAttempts (ws_options this0) = Some 0"
    using constructor_zero_ceiling [OF assms] by blast
  have A: "\<forall>this :: 'm WebSocketTransport. ws_options this = ws_options this0 \<longrightarrow>
                reconnectAttempts (socket_closes this) = reconnectAttempts this + 1
              \<and> reconnectTimer (socket_closes this) = Some (ws_next_timer this)
              \<and> ws_effects (socket_closes this) =
                   ws_effects this @ [WsConsoleLog ''WebSocket connection closed.''] @
                   (case reconnectTimer this of None \<Rightarrow> [] | Some t \<Rightarrow> [WsClearTimeout t]) @
                   [WsSetTimeout (ws_next_timer this) (reconnectInterval (ws_options this))]"
  proof (intro allI impI)
    fix this :: "'m WebSocketTransport"
    assume "ws_options this = ws_options this0"
    then have "truthy_bool (reconnect (ws_options this))"
      and "maxReconnectAttempts (ws_options this) = Some 0"
      using r m by simp_all
    then show "reconnectAttempts (socket_closes this) = reconnectAttempts this + 1
              \<and> reconnectTimer (socket_closes this) = Some (ws_next_timer this)
              \<and> ws_effects (socket_closes this) =
                   ws_effects this @ [WsConsoleLog ''WebSocket connection closed.''] @
                   (case reconnectTimer this of None \<Rightarrow> [] | Some t \<Rightarrow> [WsClearTimeout t]) @
                   [WsSetTimeout (ws_next_timer this) (reconnectInterval (ws_options this))]"
      by (simp add: socket_closes_zero_ceiling)
  qed
  have B: "\<forall>n. reconnectAttempts ((failed_reconnect ^^ n) this0) = reconnectAttempts this0 + n"
    using failed_reconnects_zero_ceiling [OF r m] by simp
  show ?thesis
    using c r m A B by (intro exI [of _ this0] conjI)
qed

theorem C10_zero_maxReconnectAttempts_witness:
  "truthy_str (ws_url sampleWsZeroOptions)
   \<and> (reconnect sampleWsZeroOptions = None \<or> reconnect sampleWsZeroOptions = Some True)
   \<and> maxReconnectAttempts sampleWsZeroOptions = Some 0
   \<and> WebSocketTransport_constructor False sampleWsZeroOptions = Inr sampleWsZero
   \<and> reconnectAttempts sampleWsZero = 0
   \<and> reconnectAttempts (socket_closes sampleWsZero) = 1
   \<and> reconnectTimer (socket_closes sampleWsZero) = Some 0
   \<and> reconnectAttempts ((failed_reconnect ^^ 7) sampleWsZero) = 7"
proof -
  have a: "truthy_str (ws_url sampleWsZeroOptions)"
    by (simp add: sampleWsZeroOptions_def truthy_str_def)
  have b: "reconnect sampleWsZeroOptions = None \<or> reconnect sampleWsZeroOptions = Some True"
    by (simp add: sampleWsZeroOptions_def)
  have c: "maxReconnectAttempts sampleWsZeroOptions = Some 0"
    by (simp add: sampleWsZeroOptions_def)
  have k: "WebSocketTransport_constructor False sampleWsZeroOptions = Inr sampleWsZero"
    by (simp add: WebSocketTransport_constructor_def sampleWsZeroOptions_def sampleWsZero_def
        truthy_str_def with_default_def connect_def str_or_def)
  have z: "reconnectAttempts sampleWsZero = 0" "ws_next_timer sampleWsZero = 0"
    by (simp_all add: sampleWsZero_def)
  obtain this0 :: "sample_meta WebSocketTransport"
    where t: "WebSocketTransport_constructor False sampleWsZeroOptions = Inr this0"
      and A: "\<forall>this :: sample_meta WebSocketTransport. ws_options this = ws_options this0 \<longrightarrow>
                reconnectAttempts (socket_closes this) = reconnectAttempts this + 1
              \<and> reconnectTimer (socket_closes this) = Some (ws_next_timer this)
              \<and> ws_effects (socket_closes this) =
                   ws_effects this @ [WsConsoleLog ''WebSocket connection closed.''] @
                   (case reconnectTimer this of None \<Rightarrow> [] | Some t \<Rightarrow> [WsClearTimeout t]) @
                   [WsSetTimeout (ws_next_timer this) (reconnectInterval (ws_options this))]"
      and B: "\<forall>n. reconnectAttempts ((failed_reconnect ^^ n) this0) = reconnectAttempts this0 + n"
    using C10_zero_maxReconnectAttempts [OF a b c, of False] by blast
  have e: "this0 = sampleWsZero"
    using t k by simp
  have "reconnectAttempts (socket_closes sampleWsZero) = 1"
    and "reconnectTimer (socket_closes sampleWsZero) = Some 0"
    using A [rule_format, of sampleWsZero] e z by simp_all
  moreover have "reconnectAttempts ((failed_reconnect ^^ 7) sampleWsZero) = 7"
    using B [rule_format, of 7] e z by simp
  ultimately show ?thesis
    using a b c k z by simp
qed

section \<open>WebSocket transport: buffering while disconnected\<close>

lemma bufferMessage_fields:
  "ws_options (bufferMessage entry this) = ws_options this"
  "socket (bufferMessage entry this) = socket this"
  "ws_effects (bufferMessage entry this) = ws_effects this"
  "reconnectAttempts (bufferMessage entry this) = reconnectAttempts this"
  "buffer (bufferMessage entry this) =
     (if truthy_num (maxBufferSize (ws_options this)) \<and>
         num_or (maxBufferSize (ws_options this)) 0 \<le> length (buffer this)
      then tl (buffer this) else buffer this) @ [entry]"
  by (simp_all add: bufferMessage_def Let_def)

lemma most_recent_step:
  assumes "0 < n" and "length b \<le> n"
  shows "(if n \<le> length b then tl b else b) @ [e] = drop (length (b @ [e]) - n) (b @ [e])"
proof (cases "n \<le> length b")
  case True
  with assms have "length b = n" and "b \<noteq> []"
    by auto
  then show ?thesis
    by (cases b) simp_all
next
  case False
  then show ?thesis
    by simp
qed

lemma most_recent_append:
  "drop (length (drop (length xs - n) xs @ ys) - n) (drop (length xs - n) xs @ ys) =
   drop (length (xs @ ys) - n) (xs @ ys)"
  by (cases "length xs \<le> n") (auto simp add: min_def add.commute)

lemma log_disconnected_buffer:
  assumes "shouldLog (ws_minLevel (ws_options this)) (level entry)"
    and "socket this \<noteq> Some OPEN"
    and "truthy_bool (bufferWhenDisconnected (ws_options this))"
  shows "transport_after (WebSocketTransport_log send_ok this entry) = bufferMessage entry this"
  using assms by (simp add: WebSocketTransport_log_def returns_def)

lemma log_each_most_recent:
  assumes "maxBufferSize (ws_options this) = Some n" and "0 < n"
    and "truthy_bool (bufferWhenDisconnected (ws_options this))"
    and "socket this \<noteq> Some OPEN"
  shows "length (buffer this) \<le> n \<Longrightarrow>
         \<forall>e\<in>set es. shouldLog (ws_minLevel (ws_options this)) (level e) \<Longrightarrow>
         buffer (log_each send_ok this es) = drop (length (buffer this @ es) - n) (buffer this @ es)"
  using assms
proof (induction es arbitrary: this)
  case Nil
  then show ?case
    by (simp add: log_each_def)
next
  case (Cons e es)
  let ?t = "bufferMessage e this"
  have step: "transport_after (WebSocketTransport_log send_ok this e) = ?t"
    using Cons.prems by (simp add: log_disconnected_buffer)
  have b: "buffer ?t = drop (length (buffer this @ [e]) - n) (buffer this @ [e])"
    using Cons.prems most_recent_step [of n "buffer this" e]
    by (simp add: bufferMessage_fields truthy_num_def num_or_def)
  have len: "length (buffer ?t) \<le> n"
    unfolding b using Cons.prems by simp
  have "buffer (log_each send_ok ?t es) = drop (length (buffer ?t @ es) - n) (buffer ?t @ es)"
    using Cons.prems len by (intro Cons.IH) (simp_all add: bufferMessage_fields)
  also have "\<dots> = drop (length ((buffer this @ [e]) @ es) - n) ((buffer this @ [e]) @ es)"
    unfolding b by (rule most_recent_append)
  finally show ?case
    using step by (simp add: log_each_def)
qed

lemma sendLogEntry_ok:
  assumes "socket this = Some OPEN" and "send_ok entry"
  shows "sendLogEntry send_ok entry this = this\<lparr>ws_effects := ws_effects this @ [SocketSend entry]\<rparr>"
  using assms by (simp add: sendLogEntry_def)

lemma sendBuffered_loop_all_ok:
  assumes "socket this = Some OPEN"
  shows "length (buffer this) - i = k \<Longrightarrow> \<forall>e\<in>set (drop i (buffer this)). send_ok e \<Longrightarrow>
     sendBuffered_loop send_ok i this =
       Some (this\<lparr>ws_effects := ws_effects this @ map SocketSend (drop i (buffer this))\<rparr>)"
  using assms
proof (induction k arbitrary: i this)
  case 0
  then show ?case
    by (subst sendBuffered_loop.simps) simp
next
  case (Suc k)
  then have lt: "i < length (buffer this)"
    by simp
  then have d: "drop i (buffer this) = buffer this ! i # drop (Suc i) (buffer this)"
    by (simp add: Cons_nth_drop_Suc)
  let ?t = "this\<lparr>ws_effects := ws_effects this @ [SocketSend (buffer this ! i)]\<rparr>"
  have s: "sendLogEntry send_ok (buffer this ! i) this = ?t"
    using Suc.prems d by (simp add: sendLogEntry_ok)
  have "sendBuffered_loop send_ok (Suc i) ?t =
      Some (?t\<lparr>ws_effects := ws_effects ?t @ map SocketSend (drop (Suc i) (buffer ?t))\<rparr>)"
    using Suc.prems d by (intro Suc.IH) simp_all
  then show ?case
    using lt s d by (subst sendBuffered_loop.simps) simp
qed

lemma socket_opens_all_ok:
  assumes "\<forall>e\<in>set (buffer this). send_ok e"
  shows "socket_opens send_ok this =
     Some (this\<lparr>socket := Some OPEN, reconnectAttempts := 0, buffer := [],
                ws_effects := ws_effects this @
                  [WsConsoleLog ''WebSocket connection established''] @
                  (if buffer this = [] then []
                   else WsConsoleLog ''Sending buffered messages...'' #
                        map SocketSend (buffer this))\<rparr>)"
proof (cases "buffer this = []")
  case True
  then show ?thesis
    by (simp add: socket_opens_def handleOpen_def sendBufferedMessages_def)
next
  case False
  let ?t = "this\<lparr>socket := Some OPEN,
      ws_effects := ws_effects this @ [WsConsoleLog ''WebSocket connection established''],
      reconnectAttempts := 0,
      ws_effects := (ws_effects this @ [WsConsoleLog ''WebSocket connection established'']) @
        [WsConsoleLog ''Sending buffered messages...'']\<rparr>"
  have "sendBuffered_loop send_ok 0 ?t =
      Some (?t\<lparr>ws_effects := ws_effects ?t @ map SocketSend (drop 0 (buffer ?t))\<rparr>)"
    using assms by (intro sendBuffered_loop_all_ok [where k = "length (buffer this)"]) simp_all
  then show ?thesis
    using False by (simp add: socket_opens_def handleOpen_def sendBufferedMessages_def)
qed

text \<open>
  Claim C7, as amended. While the socket is not open, an admitted entry is not sent: with
  buffering enabled it is appended to the buffer, after the oldest buffered entry has been
  dropped if \<open>maxBufferSize\<close> is not 0 and the buffer already holds that many entries;
  so with a \<open>maxBufferSize\<close> \<open>n > 0\<close> the buffer holds the most recent at most \<open>n\<close>
  entries in arrival order (with \<open>maxBufferSize = 0\<close> nothing is dropped). With
  buffering disabled the entry is dropped. When the socket opens and every send succeeds,
  the whole buffer is sent in its order and the buffer is then empty.
\<close>

theorem C7_buffer_and_flush:
  assumes "shouldLog (ws_minLevel (ws_options this)) (level entry)"
    and "socket this \<noteq> Some OPEN"
    and "maxBufferSize (ws_options this) = Some n"
  shows "(truthy_bool (bufferWhenDisconnected (ws_options this)) \<longrightarrow>
            transport_after (WebSocketTransport_log send_ok this entry) =
              this\<lparr>buffer := (if n \<noteq> 0 \<and> n \<le> length (buffer this)
                              then tl (buffer this) else buffer this) @ [entry]\<rparr>)
     \<and> (truthy_bool (bufferWhenDisconnected (ws_options this)) \<and> 0 < n \<and>
          length (buffer this) \<le> n \<and>
          (\<forall>e\<in>set es. shouldLog (ws_minLevel (ws_options this)) (level e)) \<longrightarrow>
            buffer (log_each send_ok this es) =
              drop (length (buffer this @ es) - n) (buffer this @ es)
          \<and> length (buffer (log_each send_ok this es)) \<le> n)
     \<and> (\<not> truthy_bool (bufferWhenDisconnected (ws_options this)) \<longrightarrow>
            WebSocketTransport_log send_ok this entry = returns this entry)
     \<and> ((\<forall>e\<in>set (buffer opened). send_ok e) \<longrightarrow>
            socket_opens send_ok opened =
              Some (opened\<lparr>socket := Some OPEN, reconnectAttempts := 0, buffer := [],
                     ws_effects := ws_effects opened @
                       [WsConsoleLog ''WebSocket connection established''] @
                       (if buffer opened = [] then []
                        else WsConsoleLog ''Sending buffered messages...'' #
                             map SocketSend (buffer opened))\<rparr>))"
proof -
  have one: "transport_after (WebSocketTransport_log send_ok this entry) =
      this\<lparr>buffer := (if n \<noteq> 0 \<and> n \<le> length (buffer this)
                      then tl (buffer this) else buffer this) @ [entry]\<rparr>"
    if "truthy_bool (bufferWhenDisconnected (ws_options this))"
    using that assms
    by (simp add: log_disconnected_buffer bufferMessage_def truthy_num_def num_or_def)
  have many: "buffer (log_each send_ok this es) =
        drop (length (buffer this @ es) - n) (buffer this @ es)
      \<and> length (buffer (log_each send_ok this es)) \<le> n"
    if "truthy_bool (bufferWhenDisconnected (ws_options this))" and "0 < n"
      and "length (buffer this) \<le> n"
      and "\<forall>e\<in>set es. shouldLog (ws_minLevel (ws_options this)) (level e)"
    using log_each_most_recent [OF assms(3) that(2) that(1) assms(2) that(3) that(4), of send_ok]
    by simp
  have none: "WebSocketTransport_log send_ok this entry = returns this entry"
    if "\<not> truthy_bool (bufferWhenDisconnected (ws_options this))"
    using that assms by (simp add: WebSocketTransport_log_def)
  show ?thesis
    using one many none socket_opens_all_ok [of opened send_ok] by blast
qed

lemma sampleWs_simps:
  "ws_minLevel (ws_options sampleWs) = Some WARN"
  "maxBufferSize (ws_options sampleWs) = Some 2"
  "truthy_bool (bufferWhenDisconnected (ws_options sampleWs))"
  "socket sampleWs = Some CONNECTING"
  "buffer sampleWs = []"
  "ws_effects sampleWs = []"
  by (simp_all add: sampleWs_def sampleWsOptions_def truthy_bool_def)

lemma sampleError_level: "level (sampleError msg) = ERROR"
  by (simp add: sampleError_def)

theorem C7_buffer_and_flush_witness:
  "shouldLog (ws_minLevel (ws_options sampleWs)) (level (sampleError ''first''))
   \<and> socket sampleWs \<noteq> Some OPEN
   \<and> maxBufferSize (ws_options sampleWs) = Some 2
   \<and> truthy_bool (bufferWhenDisconnected (ws_options sampleWs))
   \<and> length (buffer sampleWs) \<le> 2
   \<and> transport_after (WebSocketTransport_log (\<lambda>e. True) sampleWs (sampleError ''first'')) =
        sampleWs\<lparr>buffer := [sampleError ''first'']\<rparr>
   \<and> buffer (log_each (\<lambda>e. True) sampleWs
        [sampleError ''first'', sampleError ''second'', sampleError ''third'']) =
        [sampleError ''second'', sampleError ''third'']
   \<and> \<not> truthy_bool (bufferWhenDisconnected (ws_options sampleWsNoBuffer))
   \<and> WebSocketTransport_log (\<lambda>e. True) sampleWsNoBuffer (sampleError ''first'') =
        returns sampleWsNoBuffer (sampleError ''first'')
   \<and> socket_opens (\<lambda>e. True)
        (sampleWs\<lparr>buffer := [sampleError ''second'', sampleError ''third'']\<rparr>) =
        Some (sampleWs\<lparr>socket := Some OPEN, reconnectAttempts := 0, buffer := [],
                ws_effects :=
                  [WsConsoleLog ''WebSocket connection established'',
                   WsConsoleLog ''Sending buffered messages...'',
                   SocketSend (sampleError ''second''), SocketSend (sampleError ''third'')]\<rparr>)"
proof -
  have a: "shouldLog (ws_minLevel (ws_options sampleWs)) (level (sampleError msg))" for msg
    by (simp add: sampleWs_simps sampleError_level shouldLog_ordinal)
  have b: "socket sampleWs \<noteq> Some OPEN"
    by (simp add: sampleWs_simps)
  have c: "maxBufferSize (ws_options sampleWs) = Some 2"
    by (simp add: sampleWs_simps)
  have d: "truthy_bool (bufferWhenDisconnected (ws_options sampleWs))"
    by (simp add: sampleWs_simps)
  have a': "shouldLog (ws_minLevel (ws_options sampleWsNoBuffer)) (level (sampleError ''first''))"
    and b': "socket sampleWsNoBuffer \<noteq> Some OPEN"
    and c': "maxBufferSize (ws_options sampleWsNoBuffer) = Some 2"
    and d': "\<not> truthy_bool (bufferWhenDisconnected (ws_options sampleWsNoBuffer))"
    by (simp_all add: sampleWsNoBuffer_def sampleWs_def sampleWsOptions_def truthy_bool_def
        sampleError_level shouldLog_ordinal)
  have all: "\<forall>e\<in>set [sampleError ''first'', sampleError ''second'', sampleError ''third''].
      shouldLog (ws_minLevel (ws_options sampleWs)) (level e)"
    using a by simp
  have ok: "\<forall>e\<in>set (buffer (sampleWs\<lparr>buffer := [sampleError ''second'', sampleError ''third'']\<rparr>)).
      (\<lambda>e. True) e"
    by simp
  show ?thesis
    using C7_buffer_and_flush [OF a [of "''first''"] b c, where send_ok = "\<lambda>e. True"
        and es = "[sampleError ''first'', sampleError ''second'', sampleError ''third'']"
        and opened = "sampleWs\<lparr>buffer := [sampleError ''second'', sampleError ''third'']\<rparr>"]
      C7_buffer_and_flush [OF a' b' c', where send_ok = "\<lambda>e. True" and es = "[]"
        and opened = sampleWsNoBuffer]
      a [of "''first''"] b c d d' all ok
    by (simp add: sampleWs_simps)
qed

theorem C7_zero_maxBufferSize_counterexample:
  "maxBufferSize (ws_options sampleWsUncapped) = Some 0
   \<and> truthy_bool (bufferWhenDisconnected (ws_options sampleWsUncapped))
   \<and> socket sampleWsUncapped \<noteq> Some OPEN
   \<and> buffer sampleWsUncapped = []
   \<and> buffer (log_each (\<lambda>e. True) sampleWsUncapped [sampleError ''first'', sampleError ''second'']) =
        [sampleError ''first'', sampleError ''second'']
   \<and> \<not> length (buffer (log_each (\<lambda>e. True) sampleWsUncapped
          [sampleError ''first'', sampleError ''second''])) \<le> 0"
  by (simp add: log_each_def WebSocketTransport_log_def sampleWsUncapped_def sampleWs_def
      sampleWsOptions_def truthy_bool_def truthy_num_def returns_def bufferMessage_def
      sampleError_level shouldLog_ordinal)

text \<open>
  When a send throws during the flush, \<^verbatim>\<open>sendLogEntry\<close> re-buffers the entry into the
  array that is being iterated, and the buffer is cleared after the loop: here both
  buffered entries are lost and none is sent.
\<close>

lemma flush_with_failing_sends:
  "socket_opens (\<lambda>e. False) sampleWsBuffered =
     Some (sampleWsBuffered
        \<lparr>socket := Some OPEN, reconnectAttempts := 0, buffer := [],
         ws_effects :=
           [WsConsoleLog ''WebSocket connection established'',
            WsConsoleLog ''Sending buffered messages...'',
            WsConsoleError ''Error sending log via WebSocket:'',
            WsConsoleError ''Error sending log via WebSocket:'']\<rparr>)"
  by (simp add: socket_opens_def handleOpen_def sendBufferedMessages_def sampleWsBuffered_def
      sampleWs_def sampleWsOptions_def sendBuffered_loop.simps sendLogEntry_def bufferMessage_def
      truthy_bool_def truthy_num_def num_or_def Let_def sampleError_def)

section \<open>File transport: rotation\<close>

lemma decimal_digit: "n < 10 \<Longrightarrow> decimal n = [digit_char n]"
  by (subst decimal.simps) simp

lemma decimal_step: "\<not> n < 10 \<Longrightarrow> decimal n = decimal (n div 10) @ [digit_char (n mod 10)]"
  by (subst decimal.simps) simp

lemma digit_char_inj:
  assumes "a < 10" and "b < 10" and "digit_char a = digit_char b"
  shows "a = b"
proof -
  have d: "distinct ''0123456789''"
    by simp
  have "a < length ''0123456789''" and "b < length ''0123456789''"
    using assms by simp_all
  then show ?thesis
    using assms(3) d unfolding digit_char_def by (simp only: nth_eq_iff_index_eq)
qed

lemma decimal_not_Nil: "decimal n \<noteq> []"
  by (cases "n < 10") (simp_all add: decimal_digit decimal_step)

lemma decimal_length_one: "length (decimal n) = Suc 0 \<longleftrightarrow> n < 10"
proof (cases "n < 10")
  case True
  then show ?thesis
    by (simp add: decimal_digit)
next
  case False
  then have "length (decimal n) = Suc (length (decimal (n div 10)))"
    by (simp add: decimal_step)
  moreover have "length (decimal (n div 10)) \<noteq> 0"
    using decimal_not_Nil by simp
  ultimately show ?thesis
    using False by simp
qed

lemma decimal_inj: "decimal n = decimal m \<Longrightarrow> n = m"
proof (induction n arbitrary: m rule: decimal.induct)
  case (1 n)
  show ?case
  proof (cases "n < 10")
    case True
    then have "length (decimal m) = Suc 0"
      using 1(2) decimal_length_one [of n] by simp
    then have "m < 10"
      by (simp add: decimal_length_one)
    with True 1(2) show ?thesis
      by (simp add: decimal_digit digit_char_inj)
  next
    case False
    then have "\<not> length (decimal m) = Suc 0"
      using 1(2) decimal_length_one [of n] by simp
    then have m: "\<not> m < 10"
      by (simp add: decimal_length_one)
    from False m 1(2)
    have "decimal (n div 10) @ [digit_char (n mod 10)] = decimal (m div 10) @ [digit_char (m mod 10)]"
      by (simp add: decimal_step)
    then have a: "decimal (n div 10) = decimal (m div 10)"
      and b: "digit_char (n mod 10) = digit_char (m mod 10)"
      by simp_all
    have "n div 10 = m div 10"
      using 1(1) [OF False a] .
    moreover have "n mod 10 = m mod 10"
      using b by (intro digit_char_inj) simp_all
    ultimately show ?thesis
      by (metis div_mult_mod_eq)
  qed
qed

lemma backupPath_inj: "backupPath basePath i ext = backupPath basePath j ext \<longleftrightarrow> i = j"
  by (auto simp add: backupPath_def dest: decimal_inj)

lemma backupPath_not_active: "backupPath basePath i ext \<noteq> basePath @ ext"
proof
  assume "backupPath basePath i ext = basePath @ ext"
  then have "length (backupPath basePath i ext) = length (basePath @ ext)"
    by simp
  then show False
    by (simp add: backupPath_def)
qed

lemma slice0_base: "ext \<noteq> [] \<Longrightarrow> slice0 (base @ ext) (- int (length ext)) = base"
  by (simp add: slice0_def Let_def)

lemma shiftFiles_frame:
  "f_options (shiftFiles b e n this) = f_options this"
  "currentSize (shiftFiles b e n this) = currentSize this"
  "currentFilePath (shiftFiles b e n this) = currentFilePath this"
  "writeStream (shiftFiles b e n this) = writeStream this"
  "rotationCheckInterval (shiftFiles b e n this) = rotationCheckInterval this"
  "directories (shiftFiles b e n this) = directories this"
  by (induction n arbitrary: this; simp add: Let_def renameSync_def)+

lemma shiftFiles_files:
  assumes "files this (backupPath b (Suc n) e) = None"
  shows "(\<forall>k. 1 \<le> k \<and> k \<le> n \<longrightarrow>
            files (shiftFiles b e n this) (backupPath b (Suc k) e) = files this (backupPath b k e))
       \<and> (1 \<le> n \<longrightarrow> files (shiftFiles b e n this) (backupPath b 1 e) = None)
       \<and> (\<forall>q. (\<forall>k. 1 \<le> k \<and> k \<le> Suc n \<longrightarrow> q \<noteq> backupPath b k e) \<longrightarrow>
            files (shiftFiles b e n this) q = files this q)
       \<and> fs_calls (shiftFiles b e n this) =
            fs_calls this @
            map (\<lambda>i. RenameSync (backupPath b i e) (backupPath b (Suc i) e))
              (filter (\<lambda>i. files this (backupPath b i e) \<noteq> None) (rev [1..<Suc n]))"
  using assms
proof (induction n arbitrary: this)
  case 0
  then show ?case
    by simp
next
  case (Suc n)
  let ?bp = "\<lambda>i. backupPath b i e"
  let ?t = "if existsSync this (?bp (Suc n))
            then renameSync (?bp (Suc n)) (?bp (Suc (Suc n))) this else this"
  let ?R = "shiftFiles b e n ?t"
  have unfold: "shiftFiles b e (Suc n) this = ?R"
    by (simp add: Let_def)
  have pre: "files ?t (?bp (Suc n)) = None"
    by (simp add: renameSync_def existsSync_def backupPath_inj)
  have t_other: "files ?t q = files this q" if "q \<noteq> ?bp (Suc n)" and "q \<noteq> ?bp (Suc (Suc n))" for q
    using that by (simp add: renameSync_def)
  have t_top: "files ?t (?bp (Suc (Suc n))) = files this (?bp (Suc n))"
    using Suc.prems by (simp add: renameSync_def existsSync_def backupPath_inj)
  have t_calls: "fs_calls ?t = fs_calls this @
      (if files this (?bp (Suc n)) \<noteq> None then [RenameSync (?bp (Suc n)) (?bp (Suc (Suc n)))] else [])"
    by (simp add: renameSync_def existsSync_def)
  note IH = Suc.IH [of ?t, OF pre]
  have g1: "files ?R (?bp (Suc k)) = files this (?bp k)" if "1 \<le> k" and "k \<le> Suc n" for k
  proof (cases "k \<le> n")
    case True
    with that IH have "files ?R (?bp (Suc k)) = files ?t (?bp k)"
      by blast
    also have "\<dots> = files this (?bp k)"
      using True by (intro t_other) (simp_all add: backupPath_inj)
    finally show ?thesis .
  next
    case False
    with that have k: "k = Suc n"
      by simp
    have "\<forall>j. 1 \<le> j \<and> j \<le> Suc n \<longrightarrow> ?bp (Suc (Suc n)) \<noteq> ?bp j"
      by (simp add: backupPath_inj)
    with IH have "files ?R (?bp (Suc (Suc n))) = files ?t (?bp (Suc (Suc n)))"
      by blast
    then show ?thesis
      using k t_top by simp
  qed
  have g2: "files ?R (?bp 1) = None"
  proof (cases "1 \<le> n")
    case True
    with IH show ?thesis
      by blast
  next
    case False
    then have "n = 0"
      by simp
    then show ?thesis
      using pre by simp
  qed
  have g3: "files ?R q = files this q"
    if "\<forall>k. 1 \<le> k \<and> k \<le> Suc (Suc n) \<longrightarrow> q \<noteq> ?bp k" for q
  proof -
    from that have "\<forall>k. 1 \<le> k \<and> k \<le> Suc n \<longrightarrow> q \<noteq> ?bp k"
      by simp
    with IH have "files ?R q = files ?t q"
      by blast
    also have "\<dots> = files this q"
      using that by (intro t_other) simp_all
    finally show ?thesis .
  qed
  have same: "filter (\<lambda>i. files ?t (?bp i) \<noteq> None) (rev [1..<Suc n]) =
      filter (\<lambda>i. files this (?bp i) \<noteq> None) (rev [1..<Suc n])"
  proof (rule filter_cong [OF refl])
    fix i
    assume "i \<in> set (rev [1..<Suc n])"
    then have "i \<le> n"
      by auto
    then have "files ?t (?bp i) = files this (?bp i)"
      by (intro t_other) (simp_all add: backupPath_inj)
    then show "(files ?t (?bp i) \<noteq> None) = (files this (?bp i) \<noteq> None)"
      by simp
  qed
  have g4: "fs_calls ?R = fs_calls this @
      map (\<lambda>i. RenameSync (?bp i) (?bp (Suc i)))
        (filter (\<lambda>i. files this (?bp i) \<noteq> None) (rev [1..<Suc (Suc n)]))"
  proof -
    have "fs_calls ?R = fs_calls ?t @
        map (\<lambda>i. RenameSync (?bp i) (?bp (Suc i)))
          (filter (\<lambda>i. files ?t (?bp i) \<noteq> None) (rev [1..<Suc n]))"
      using IH by blast
    then show ?thesis
      unfolding same t_calls by simp
  qed
  show ?case
    unfolding unfold using g1 g2 g3 g4 by blast
qed

lemma num_or_positive: "0 < d \<Longrightarrow> 0 < num_or v d"
  by (cases v) (simp_all add: num_or_def)

lemma rotateFile_steps:
  assumes h: "writeStream this = Some h"
    and ext: "path_extname lib (currentFilePath this) = ext"
    and ne: "ext \<noteq> []"
    and path: "currentFilePath this = base @ ext"
    and act: "files this (currentFilePath this) \<noteq> None"
    and N: "N = num_or (maxFiles (f_options this)) 5"
  shows "fs_calls (rotateFile lib this) =
           fs_calls this @ [StreamEnd h] @
           (if files this (backupPath base N ext) \<noteq> None
            then [UnlinkSync (backupPath base N ext)] else []) @
           map (\<lambda>i. RenameSync (backupPath base i ext) (backupPath base (Suc i) ext))
             (filter (\<lambda>i. files this (backupPath base i ext) \<noteq> None) (rev [1..<N])) @
           [RenameSync (base @ ext) (backupPath base 1 ext), CreateWriteStream (base @ ext)]"
    and "currentSize (rotateFile lib this) = 0"
    and "writeStream (rotateFile lib this) = Some (base @ ext)"
    and "currentFilePath (rotateFile lib this) = currentFilePath this"
    and "f_options (rotateFile lib this) = f_options this"
    and "files (rotateFile lib this) (base @ ext) = Some []"
    and "files (rotateFile lib this) (backupPath base 1 ext) = files this (base @ ext)"
    and "\<And>k. 1 \<le> k \<Longrightarrow> k < N \<Longrightarrow>
           files (rotateFile lib this) (backupPath base (Suc k) ext) = files this (backupPath base k ext)"
    and "\<And>q. q \<noteq> base @ ext \<Longrightarrow> (\<And>k. 1 \<le> k \<Longrightarrow> k \<le> N \<Longrightarrow> q \<noteq> backupPath base k ext) \<Longrightarrow>
           files (rotateFile lib this) q = files this q"
proof -
  let ?bp = "\<lambda>i. backupPath base i ext"
  let ?p = "base @ ext"
  have Npos: "1 \<le> N"
    using num_or_positive [of 5 "maxFiles (f_options this)"] N by simp
  define this1 where "this1 = this\<lparr>writeStream := None, fs_calls := fs_calls this @ [StreamEnd h]\<rparr>"
  define u where "u = (if existsSync this1 (?bp N) then unlinkSync (?bp N) this1 else this1)"
  define s where "s = shiftFiles base ext (N - 1) u"
  define r where "r = renameSync ?p (?bp 1) s"
  have u_top: "files u (?bp N) = None"
    by (simp add: u_def unlinkSync_def existsSync_def)
  have u_other: "files u q = files this q" if "q \<noteq> ?bp N" for q
    using that by (simp add: u_def unlinkSync_def this1_def)
  have u_calls: "fs_calls u = fs_calls this @ [StreamEnd h] @
      (if files this (?bp N) \<noteq> None then [UnlinkSync (?bp N)] else [])"
    by (simp add: u_def unlinkSync_def existsSync_def this1_def)
  have u_frame: "f_options u = f_options this" "currentFilePath u = ?p" "writeStream u = None"
    "currentSize u = currentSize this"
    by (simp_all add: u_def unlinkSync_def this1_def path)
  have pre: "files u (?bp (Suc (N - 1))) = None"
    using u_top Npos by simp
  note S = shiftFiles_files [OF pre, folded s_def]
  have s_up: "files s (?bp (Suc k)) = files this (?bp k)" if "1 \<le> k" and "k < N" for k
  proof -
    have "files s (?bp (Suc k)) = files u (?bp k)"
      using S that by simp
    then show ?thesis
      using that by (simp add: u_other backupPath_inj)
  qed
  have s_one: "files s (?bp 1) = None"
  proof (cases "1 \<le> N - 1")
    case True
    then show ?thesis
      using S by blast
  next
    case False
    then have "N = 1"
      using Npos by simp
    then show ?thesis
      using u_top by (simp add: s_def)
  qed
  have s_other: "files s q = files this q"
    if "\<And>k. 1 \<le> k \<Longrightarrow> k \<le> N \<Longrightarrow> q \<noteq> ?bp k" for q
  proof -
    have "\<forall>k. 1 \<le> k \<and> k \<le> Suc (N - 1) \<longrightarrow> q \<noteq> ?bp k"
      using that Npos by simp
    then have "files s q = files u q"
      using S by blast
    then show ?thesis
      using that [of N] Npos by (simp add: u_other)
  qed
  have s_active: "files s ?p = files this ?p"
    by (intro s_other) (simp add: backupPath_not_active [symmetric])
  have same: "filter (\<lambda>i. files u (?bp i) \<noteq> None) (rev [1..<Suc (N - 1)]) =
      filter (\<lambda>i. files this (?bp i) \<noteq> None) (rev [1..<N])"
  proof -
    have "filter (\<lambda>i. files u (?bp i) \<noteq> None) (rev [1..<N]) =
      filter (\<lambda>i. files this (?bp i) \<noteq> None) (rev [1..<N])"
      by (rule filter_cong [OF refl]) (simp add: u_other backupPath_inj)
    then show ?thesis
      using Npos by simp
  qed
  have s_calls: "fs_calls s = fs_calls this @ [StreamEnd h] @
      (if files this (?bp N) \<noteq> None then [UnlinkSync (?bp N)] else []) @
      map (\<lambda>i. RenameSync (?bp i) (?bp (Suc i)))
        (filter (\<lambda>i. files this (?bp i) \<noteq> None) (rev [1..<N]))"
    using S unfolding same u_calls by simp
  have s_frame: "f_options s = f_options this" "currentFilePath s = ?p" "writeStream s = None"
    "currentSize s = currentSize this"
    by (simp_all add: s_def shiftFiles_frame u_frame)
  have old: "renameOldFiles lib this1 = r"
  proof -
    have c: "currentFilePath this1 = currentFilePath this" "f_options this1 = f_options this"
      by (simp_all add: this1_def)
    have e: "path_extname lib ?p = ext" "currentFilePath this1 = ?p"
      "num_or (maxFiles (f_options this1)) 5 = N"
      unfolding c using ext path N by simp_all
    have "existsSync s (currentFilePath s)"
      using act s_active by (simp add: existsSync_def s_frame path)
    then show ?thesis
      unfolding renameOldFiles_def e Let_def slice0_base [OF ne] u_def [symmetric] s_def [symmetric]
      by (simp add: r_def s_frame)
  qed
  have r_files: "files r = ((files s)(?bp 1 := files s ?p))(?p := None)"
    by (simp add: r_def renameSync_def backupPath_not_active [symmetric])
  have r_rest: "fs_calls r = fs_calls s @ [RenameSync ?p (?bp 1)]" "writeStream r = None"
    "currentFilePath r = ?p" "f_options r = f_options this"
    by (simp_all add: r_def renameSync_def s_frame)
  have rot: "rotateFile lib this = createWriteStream (r\<lparr>currentSize := 0\<rparr>)"
    using h old by (simp add: rotateFile_def this1_def Let_def)
  have fin: "createWriteStream (r\<lparr>currentSize := 0\<rparr>) =
      r\<lparr>currentSize := 0, writeStream := Some ?p, files := (files r)(?p \<mapsto> []),
        fs_calls := fs_calls r @ [CreateWriteStream ?p]\<rparr>"
    by (simp add: createWriteStream_def r_rest r_files Let_def split: option.split file_mode.split)
  show "fs_calls (rotateFile lib this) =
           fs_calls this @ [StreamEnd h] @
           (if files this (?bp N) \<noteq> None then [UnlinkSync (?bp N)] else []) @
           map (\<lambda>i. RenameSync (?bp i) (?bp (Suc i)))
             (filter (\<lambda>i. files this (?bp i) \<noteq> None) (rev [1..<N])) @
           [RenameSync ?p (?bp 1), CreateWriteStream ?p]"
    unfolding rot fin by (simp add: r_rest s_calls)
  show "currentSize (rotateFile lib this) = 0"
    unfolding rot fin by simp
  show "writeStream (rotateFile lib this) = Some ?p"
    unfolding rot fin by simp
  show "currentFilePath (rotateFile lib this) = currentFilePath this"
    unfolding rot fin by (simp add: r_rest path)
  show "f_options (rotateFile lib this) = f_options this"
    unfolding rot fin by (simp add: r_rest)
  show "files (rotateFile lib this) ?p = Some []"
    unfolding rot fin by simp
  show "files (rotateFile lib this) (?bp 1) = files this ?p"
    unfolding rot fin by (simp add: r_files backupPath_not_active s_active)
  show "files (rotateFile lib this) (?bp (Suc k)) = files this (?bp k)"
    if "1 \<le> k" and "k < N" for k
    unfolding rot fin using that
    by (simp add: r_files backupPath_not_active backupPath_inj s_up)
  show "files (rotateFile lib this) q = files this q"
    if "q \<noteq> ?p" and "\<And>k. 1 \<le> k \<Longrightarrow> k \<le> N \<Longrightarrow> q \<noteq> ?bp k" for q
  proof -
    have "q \<noteq> ?bp 1"
      using that(2) [of 1] Npos by simp
    then show ?thesis
      unfolding rot fin using that by (simp add: r_files s_other)
  qed
qed

lemma rotateFile_invariant:
  assumes "rotating_state lib base ext options this"
    and "backups_within base ext (num_or (maxFiles options) 5) this"
  shows "rotating_state lib base ext options (rotateFile lib this)"
    and "backups_within base ext (num_or (maxFiles options) 5) (rotateFile lib this)"
proof -
  have h: "writeStream this = Some (base @ ext)"
    and ext: "path_extname lib (currentFilePath this) = ext"
    and ne: "ext \<noteq> []"
    and path: "currentFilePath this = base @ ext"
    and act: "files this (currentFilePath this) \<noteq> None"
    and N: "num_or (maxFiles options) 5 = num_or (maxFiles (f_options this)) 5"
    using assms(1) by (simp_all add: rotating_state_def)
  note R = rotateFile_steps [OF h ext ne path act N]
  show "rotating_state lib base ext options (rotateFile lib this)"
    using assms(1) R(3,4,5,6) by (simp add: rotating_state_def)
  show "backups_within base ext (num_or (maxFiles options) 5) (rotateFile lib this)"
    unfolding backups_within_def
  proof (intro allI impI)
    fix i
    assume i: "num_or (maxFiles options) 5 < i"
    have "files (rotateFile lib this) (backupPath base i ext) = files this (backupPath base i ext)"
      using i by (intro R(9)) (simp_all add: backupPath_not_active backupPath_inj)
    then show "files (rotateFile lib this) (backupPath base i ext) = None"
      using assms(2) i by (simp add: backups_within_def)
  qed
qed

lemma rotations_invariant:
  assumes "rotating_state lib base ext options this"
    and "backups_within base ext (num_or (maxFiles options) 5) this"
  shows "rotating_state lib base ext options ((rotateFile lib ^^ n) this) \<and>
         backups_within base ext (num_or (maxFiles options) 5) ((rotateFile lib ^^ n) this)"
  using assms by (induction n) (simp_all add: rotateFile_invariant)

lemma FileTransport_log_invariant:
  assumes "rotating_state lib base ext options this"
    and "backups_within base ext (num_or (maxFiles options) 5) this"
  shows "rotating_state lib base ext options
           (transport_after (FileTransport_log lib write_error this entry)) \<and>
         backups_within base ext (num_or (maxFiles options) 5)
           (transport_after (FileTransport_log lib write_error this entry))"
proof -
  let ?p = "base @ ext"
  have st: "writeStream this = Some ?p" "currentFilePath this = ?p" "files this ?p \<noteq> None"
    "f_options this = options"
    using assms(1) by (simp_all add: rotating_state_def)
  define written where "written line =
      this\<lparr>files := (files this)(?p \<mapsto> (case files this ?p of None \<Rightarrow> [] | Some c \<Rightarrow> c) @ line),
           fs_calls := fs_calls this @ [StreamWrite ?p line],
           currentSize := currentSize this + length line\<rparr>" for line
  have w1: "rotating_state lib base ext options (written line)" for line
    using assms(1) by (simp add: rotating_state_def written_def)
  have w2: "backups_within base ext (num_or (maxFiles options) 5) (written line)" for line
    using assms(2) by (simp add: backups_within_def written_def backupPath_not_active)
  have failed: "rotating_state lib base ext options (this\<lparr>fs_calls := c\<rparr>) \<and>
      backups_within base ext (num_or (maxFiles options) 5) (this\<lparr>fs_calls := c\<rparr>)" for c
    using assms by (simp add: rotating_state_def backups_within_def)
  have "transport_after (FileTransport_log lib write_error this entry) = this
      \<or> (\<exists>c. transport_after (FileTransport_log lib write_error this entry) = this\<lparr>fs_calls := c\<rparr>)
      \<or> (\<exists>line. transport_after (FileTransport_log lib write_error this entry) = written line)
      \<or> (\<exists>line. transport_after (FileTransport_log lib write_error this entry) =
            rotateFile lib (written line))"
    by (auto simp add: FileTransport_log_def st returns_def throws_def written_def Let_def
        split: option.split)
  then show ?thesis
    using assms failed w1 w2 rotateFile_invariant [OF w1 w2] by auto
qed

lemma FileTransport_log_each_invariant:
  assumes "rotating_state lib base ext options this"
    and "backups_within base ext (num_or (maxFiles options) 5) this"
  shows "rotating_state lib base ext options (FileTransport_log_each lib this writes) \<and>
         backups_within base ext (num_or (maxFiles options) 5) (FileTransport_log_each lib this writes)"
  using assms
proof (induction writes arbitrary: this)
  case Nil
  then show ?case
    by (simp add: FileTransport_log_each_def)
next
  case (Cons w writes)
  obtain write_error entry where w: "w = (write_error, entry)"
    by (cases w)
  have "rotating_state lib base ext options
           (transport_after (FileTransport_log lib write_error this entry))"
    and "backups_within base ext (num_or (maxFiles options) 5)
           (transport_after (FileTransport_log lib write_error this entry))"
    using FileTransport_log_invariant [OF Cons.prems] by simp_all
  then show ?case
    using Cons.IH [of "transport_after (FileTransport_log lib write_error this entry)"] w
    by (simp add: FileTransport_log_each_def)
qed

text \<open>
  Claim C5, as amended. Let \<open>N\<close> be \<open>maxFiles\<close>, or 5 when \<open>maxFiles\<close> is 0 or
  unset. For an active path with a non-empty extension, a rotation makes exactly these
  calls, in order: it ends the stream; it deletes backup \<open>N\<close> if it exists; for
  \<open>i\<close> from \<open>N - 1\<close> down to 1 it renames backup \<open>i\<close> to backup \<open>i + 1\<close> when
  backup \<open>i\<close> exists; it renames the active file to backup 1; it opens a stream on the
  active path. Afterwards the tracked size is 0, the active file is empty, backup 1 holds
  the previous content of the active file, backup \<open>k + 1\<close> holds what backup \<open>k\<close>
  held, and no other file has changed: the content of the old backup \<open>N\<close> is gone. If
  no backup had an index above \<open>N\<close>, none has after any number of rotations, nor after
  any sequence of writes with the rotations they trigger.
\<close>

theorem C5_rotation_procedure:
  assumes "rotating_state lib base ext options this"
    and "N = num_or (maxFiles options) 5"
  shows "fs_calls (rotateFile lib this) =
           fs_calls this @ [StreamEnd (base @ ext)] @
           (if files this (backupPath base N ext) \<noteq> None
            then [UnlinkSync (backupPath base N ext)] else []) @
           map (\<lambda>i. RenameSync (backupPath base i ext) (backupPath base (Suc i) ext))
             (filter (\<lambda>i. files this (backupPath base i ext) \<noteq> None) (rev [1..<N])) @
           [RenameSync (base @ ext) (backupPath base 1 ext), CreateWriteStream (base @ ext)]
     \<and> currentSize (rotateFile lib this) = 0
     \<and> writeStream (rotateFile lib this) = Some (base @ ext)
     \<and> files (rotateFile lib this) (base @ ext) = Some []
     \<and> files (rotateFile lib this) (backupPath base 1 ext) = files this (base @ ext)
     \<and> (\<forall>k. 1 \<le> k \<and> k < N \<longrightarrow>
          files (rotateFile lib this) (backupPath base (Suc k) ext) = files this (backupPath base k ext))
     \<and> (\<forall>q. q \<noteq> base @ ext \<and> (\<forall>k. 1 \<le> k \<and> k \<le> N \<longrightarrow> q \<noteq> backupPath base k ext) \<longrightarrow>
          files (rotateFile lib this) q = files this q)
     \<and> (backups_within base ext N this \<longrightarrow>
          backups_within base ext N ((rotateFile lib ^^ n) this) \<and>
          backups_within base ext N (FileTransport_log_each lib this writes))
     \<and> (maxFiles options = Some m \<and> m \<noteq> 0 \<longrightarrow> N = m)"
proof -
  have h: "writeStream this = Some (base @ ext)"
    and ext: "path_extname lib (currentFilePath this) = ext"
    and ne: "ext \<noteq> []"
    and path: "currentFilePath this = base @ ext"
    and act: "files this (currentFilePath this) \<noteq> None"
    and N: "N = num_or (maxFiles (f_options this)) 5"
    using assms by (simp_all add: rotating_state_def)
  note R = rotateFile_steps [OF h ext ne path act N]
  have inv: "backups_within base ext N ((rotateFile lib ^^ n) this) \<and>
          backups_within base ext N (FileTransport_log_each lib this writes)"
    if "backups_within base ext N this"
    using rotations_invariant [OF assms(1), of n] FileTransport_log_each_invariant [OF assms(1), of writes]
      that assms(2) by simp
  have m: "N = m" if "maxFiles options = Some m \<and> m \<noteq> 0"
    using that assms(2) by (simp add: num_or_def)
  show ?thesis
    using R(1,2,3,6,7) R(8) R(9) inv m by (intro conjI allI impI) blast+
qed

lemma sample_backupPath:
  "backupPath ''test'' 1 ''.log'' = ''test.1.log''"
  "backupPath ''test'' (Suc 0) ''.log'' = ''test.1.log''"
  "backupPath ''test'' 2 ''.log'' = ''test.2.log''"
  "backupPath ''test'' (Suc (Suc 0)) ''.log'' = ''test.2.log''"
  "backupPath ''test'' 3 ''.log'' = ''test.3.log''"
  "backupPath ''test'' 4 ''.log'' = ''test.4.log''"
  "backupPath ''test'' 5 ''.log'' = ''test.5.log''"
  by (simp_all add: backupPath_def decimal_digit digit_char_def)

lemma downto_3: "rev [Suc 0..<3] = [2, Suc 0]"
  by code_simp

lemma downto_5: "rev [Suc 0..<5] = [4, 3, 2, Suc 0]"
  by code_simp

lemma sample_not_active: "backupPath ''test'' i ''.log'' \<noteq> ''test.log''"
  using backupPath_not_active [of "''test''" i "''.log''"] by simp

lemma sampleRotating_state:
  "rotating_state sampleLib ''test'' ''.log'' (f_options sampleRotating) sampleRotating"
  by (simp add: rotating_state_def sampleRotating_def sampleLib_def)

lemma sampleRotating_files:
  "files sampleRotating q =
     (if q = backupPath ''test'' 3 ''.log'' then Some ''three''
      else if q = backupPath ''test'' 2 ''.log'' then Some ''two''
      else if q = backupPath ''test'' 1 ''.log'' then Some ''one''
      else if q = ''test.log'' then Some ''new'' else None)"
  by (simp add: sampleRotating_def sample_backupPath)

lemma sampleRotating_fields:
  "fs_calls sampleRotating = []"
  "maxFiles (f_options sampleRotating) = Some 3"
  by (simp_all add: sampleRotating_def)

lemma sampleRotating_within: "backups_within ''test'' ''.log'' 3 sampleRotating"
  unfolding backups_within_def sampleRotating_files
  by (simp add: backupPath_inj sample_not_active)

theorem C5_rotation_procedure_witness:
  "rotating_state sampleLib ''test'' ''.log'' (f_options sampleRotating) sampleRotating
   \<and> 3 = num_or (maxFiles (f_options sampleRotating)) 5
   \<and> backups_within ''test'' ''.log'' 3 sampleRotating
   \<and> fs_calls (rotateFile sampleLib sampleRotating) =
        [StreamEnd ''test.log'', UnlinkSync ''test.3.log'',
         RenameSync ''test.2.log'' ''test.3.log'', RenameSync ''test.1.log'' ''test.2.log'',
         RenameSync ''test.log'' ''test.1.log'', CreateWriteStream ''test.log'']
   \<and> currentSize (rotateFile sampleLib sampleRotating) = 0
   \<and> files (rotateFile sampleLib sampleRotating) ''test.log'' = Some []
   \<and> files (rotateFile sampleLib sampleRotating) ''test.1.log'' = Some ''new''
   \<and> files (rotateFile sampleLib sampleRotating) ''test.2.log'' = Some ''one''
   \<and> files (rotateFile sampleLib sampleRotating) ''test.3.log'' = Some ''two''
   \<and> files (rotateFile sampleLib sampleRotating) ''other.log'' = None
   \<and> backups_within ''test'' ''.log'' 3 ((rotateFile sampleLib ^^ 4) sampleRotating)"
proof -
  note a = sampleRotating_state
  have b: "3 = num_or (maxFiles (f_options sampleRotating)) 5"
    by (simp add: sampleRotating_fields num_or_def)
  note c = sampleRotating_within
  note T = C5_rotation_procedure [OF a b, where n = 4 and writes = "[]" and m = 3]
  have "fs_calls (rotateFile sampleLib sampleRotating) =
        fs_calls sampleRotating @ [StreamEnd (''test'' @ ''.log'')] @
           (if files sampleRotating (backupPath ''test'' 3 ''.log'') \<noteq> None
            then [UnlinkSync (backupPath ''test'' 3 ''.log'')] else []) @
           map (\<lambda>i. RenameSync (backupPath ''test'' i ''.log'') (backupPath ''test'' (Suc i) ''.log''))
             (filter (\<lambda>i. files sampleRotating (backupPath ''test'' i ''.log'') \<noteq> None) (rev [1..<3])) @
           [RenameSync (''test'' @ ''.log'') (backupPath ''test'' 1 ''.log''),
            CreateWriteStream (''test'' @ ''.log'')]"
    using T by blast
  then have "fs_calls (rotateFile sampleLib sampleRotating) =
        [StreamEnd ''test.log'', UnlinkSync (backupPath ''test'' 3 ''.log''),
         RenameSync (backupPath ''test'' 2 ''.log'') (backupPath ''test'' (Suc 2) ''.log''),
         RenameSync (backupPath ''test'' (Suc 0) ''.log'') (backupPath ''test'' (Suc (Suc 0)) ''.log''),
         RenameSync ''test.log'' (backupPath ''test'' (Suc 0) ''.log''), CreateWriteStream ''test.log'']"
    by (simp add: sampleRotating_fields sampleRotating_files backupPath_inj downto_3)
  then have calls: "fs_calls (rotateFile sampleLib sampleRotating) =
        [StreamEnd ''test.log'', UnlinkSync ''test.3.log'',
         RenameSync ''test.2.log'' ''test.3.log'', RenameSync ''test.1.log'' ''test.2.log'',
         RenameSync ''test.log'' ''test.1.log'', CreateWriteStream ''test.log'']"
    by (simp add: sample_backupPath)
  have sz: "currentSize (rotateFile sampleLib sampleRotating) = 0"
    using T by blast
  have "files (rotateFile sampleLib sampleRotating) (''test'' @ ''.log'') = Some []"
    using T by blast
  then have f0: "files (rotateFile sampleLib sampleRotating) ''test.log'' = Some []"
    by simp
  have "files (rotateFile sampleLib sampleRotating) (backupPath ''test'' 1 ''.log'') =
      files sampleRotating (''test'' @ ''.log'')"
    using T by blast
  then have f1: "files (rotateFile sampleLib sampleRotating) ''test.1.log'' = Some ''new''"
    by (simp add: sampleRotating_files sample_not_active [symmetric]) (simp add: sample_backupPath)
  have up: "files (rotateFile sampleLib sampleRotating) (backupPath ''test'' (Suc k) ''.log'') =
      files sampleRotating (backupPath ''test'' k ''.log'')" if "1 \<le> k \<and> k < 3" for k
    using T that by blast
  have u1: "files (rotateFile sampleLib sampleRotating) (backupPath ''test'' (Suc 1) ''.log'') =
      files sampleRotating (backupPath ''test'' 1 ''.log'')"
    by (rule up) simp
  have v1: "files sampleRotating (backupPath ''test'' 1 ''.log'') = Some ''one''"
    by (simp add: sampleRotating_files backupPath_inj)
  have n1: "backupPath ''test'' (Suc 1) ''.log'' = ''test.2.log''"
    by (simp add: sample_backupPath)
  have f2: "files (rotateFile sampleLib sampleRotating) ''test.2.log'' = Some ''one''"
    using u1 unfolding v1 n1 .
  have u2: "files (rotateFile sampleLib sampleRotating) (backupPath ''test'' (Suc 2) ''.log'') =
      files sampleRotating (backupPath ''test'' 2 ''.log'')"
    by (rule up) simp
  have v2: "files sampleRotating (backupPath ''test'' 2 ''.log'') = Some ''two''"
    by (simp add: sampleRotating_files backupPath_inj)
  have n2: "backupPath ''test'' (Suc 2) ''.log'' = ''test.3.log''"
    using sample_backupPath(5) by (simp add: eval_nat_numeral)
  have f3: "files (rotateFile sampleLib sampleRotating) ''test.3.log'' = Some ''two''"
    using u2 unfolding v2 n2 .
  have "''other.log'' \<noteq> ''test'' @ ''.log'' \<and>
      (\<forall>k. 1 \<le> k \<and> k \<le> 3 \<longrightarrow> ''other.log'' \<noteq> backupPath ''test'' k ''.log'')"
    by (simp add: backupPath_def)
  then have "files (rotateFile sampleLib sampleRotating) ''other.log'' =
      files sampleRotating ''other.log''"
    using T by blast
  then have fo: "files (rotateFile sampleLib sampleRotating) ''other.log'' = None"
    by (simp add: sampleRotating_def)
  have w: "backups_within ''test'' ''.log'' 3 ((rotateFile sampleLib ^^ 4) sampleRotating)"
    using T c by blast
  show ?thesis
    using a b c calls sz f0 f1 f2 f3 fo w by simp
qed

lemma sampleRotatingZero_state:
  "writeStream sampleRotatingZero = Some ''test.log''"
  "path_extname sampleLib (currentFilePath sampleRotatingZero) = ''.log''"
  "currentFilePath sampleRotatingZero = ''test'' @ ''.log''"
  "files sampleRotatingZero (currentFilePath sampleRotatingZero) \<noteq> None"
  "5 = num_or (maxFiles (f_options sampleRotatingZero)) 5"
  "fs_calls sampleRotatingZero = []"
  "maxFiles (f_options sampleRotatingZero) = Some 0"
  by (simp_all add: sampleRotatingZero_def sampleRotating_def sampleLib_def num_or_def)

lemma sampleRotatingZero_files:
  "files sampleRotatingZero q =
     (if q = backupPath ''test'' 1 ''.log'' then Some ''one''
      else if q = ''test.log'' then Some ''new'' else None)"
  by (simp add: sampleRotatingZero_def sampleRotating_def sample_backupPath)

theorem C5_zero_maxFiles_counterexample:
  "rotating_state sampleLib ''test'' ''.log'' (f_options sampleRotatingZero) sampleRotatingZero
   \<and> maxFiles (f_options sampleRotatingZero) = Some 0
   \<and> files sampleRotatingZero ''test.1.log'' = Some ''one''
   \<and> files sampleRotatingZero ''test.2.log'' = None
   \<and> fs_calls (rotateFile sampleLib sampleRotatingZero) =
        [StreamEnd ''test.log'', RenameSync ''test.1.log'' ''test.2.log'',
         RenameSync ''test.log'' ''test.1.log'', CreateWriteStream ''test.log'']
   \<and> files (rotateFile sampleLib sampleRotatingZero) ''test.1.log'' = Some ''new''
   \<and> files (rotateFile sampleLib sampleRotatingZero) ''test.2.log'' = Some ''one''"
proof -
  have ne: "''.log'' \<noteq> []"
    by simp
  note R = rotateFile_steps [OF sampleRotatingZero_state(1,2) ne sampleRotatingZero_state(3,4,5)]
  have a: "rotating_state sampleLib ''test'' ''.log'' (f_options sampleRotatingZero) sampleRotatingZero"
    by (simp add: rotating_state_def sampleRotatingZero_def sampleRotating_def sampleLib_def)
  have b: "files sampleRotatingZero ''test.1.log'' = Some ''one''"
    "files sampleRotatingZero ''test.2.log'' = None"
    by (simp_all add: sampleRotatingZero_def sampleRotating_def)
  have "fs_calls (rotateFile sampleLib sampleRotatingZero) =
        [StreamEnd ''test.log'',
         RenameSync (backupPath ''test'' (Suc 0) ''.log'') (backupPath ''test'' (Suc (Suc 0)) ''.log''),
         RenameSync ''test.log'' (backupPath ''test'' (Suc 0) ''.log''), CreateWriteStream ''test.log'']"
    unfolding R(1)
    by (simp add: sampleRotatingZero_state(6) sampleRotatingZero_files backupPath_inj downto_5
        sample_not_active sample_not_active [symmetric])
  then have calls: "fs_calls (rotateFile sampleLib sampleRotatingZero) =
        [StreamEnd ''test.log'', RenameSync ''test.1.log'' ''test.2.log'',
         RenameSync ''test.log'' ''test.1.log'', CreateWriteStream ''test.log'']"
    by (simp add: sample_backupPath)
  have "files (rotateFile sampleLib sampleRotatingZero) (backupPath ''test'' 1 ''.log'') =
      files sampleRotatingZero (''test'' @ ''.log'')"
    by (rule R(7))
  then have f1: "files (rotateFile sampleLib sampleRotatingZero) ''test.1.log'' = Some ''new''"
    by (simp add: sampleRotatingZero_files sample_not_active [symmetric]) (simp add: sample_backupPath)
  have u1: "files (rotateFile sampleLib sampleRotatingZero) (backupPath ''test'' (Suc 1) ''.log'') =
      files sampleRotatingZero (backupPath ''test'' 1 ''.log'')"
    by (rule R(8)) simp_all
  have v1: "files sampleRotatingZero (backupPath ''test'' 1 ''.log'') = Some ''one''"
    by (simp add: sampleRotatingZero_files)
  have n1: "backupPath ''test'' (Suc 1) ''.log'' = ''test.2.log''"
    by (simp add: sample_backupPath)
  have f2: "files (rotateFile sampleLib sampleRotatingZero) ''test.2.log'' = Some ''one''"
    using u1 unfolding v1 n1 .
  show ?thesis
    using a b calls f1 f2 by (simp add: sampleRotatingZero_state(7))
qed

section \<open>File transport: the size check at construction\<close>

text \<open>
  The constructor calls \<^verbatim>\<open>checkFileSize\<close> before \<^verbatim>\<open>createWriteStream\<close>, while
  \<^verbatim>\<open>writeStream\<close> is still \<^verbatim>\<open>null\<close>; \<^verbatim>\<open>rotateFile\<close> returns at its guard
  \<^verbatim>\<open>if (!this.writeStream) return\<close>, so the size check only records the size.
\<close>

lemma rotateFile_no_stream: "writeStream this = None \<Longrightarrow> rotateFile lib this = this"
  by (simp add: rotateFile_def)

lemma checkFileSize_before_stream:
  "writeStream this = None \<Longrightarrow>
   checkFileSize lib this =
     this\<lparr>currentSize := (case files this (currentFilePath this) of None \<Rightarrow> 0 | Some c \<Rightarrow> length c)\<rparr>"
  by (simp add: checkFileSize_def rotateFile_no_stream Let_def split: option.split)

lemma sampleFull_constructed:
  "FileTransport_constructor sampleLib sampleFullDisk {} sampleFullOptions = Inr sampleFull"
  by (simp add: FileTransport_constructor_def sampleFullOptions_def sampleFullDisk_def
      truthy_str_def with_default_def getFilePath_def str_or_def ensureDirectoryExists_def
      checkFileSize_def size_reached_def rotateFile_no_stream createWriteStream_def Let_def
      sampleFull_def)

lemma sampleFull_line: "file_logString sampleLib (f_options sampleFull) sampleEntry = Some sampleLine"
  by (simp add: file_logString_def sampleFull_def sampleLib_def sampleEntry_def append_meta_def
      sample_stringify_meta_def append_stack_def truthy_str_def sampleLine_def)

lemma sampleFull_first_write:
  "FileTransport_log sampleLib False sampleFull sampleEntry =
     returns (rotateFile sampleLib sampleFullWritten) sampleEntry"
proof -
  have a: "shouldLog (f_minLevel (f_options sampleFull)) (level sampleEntry)"
    "writeStream sampleFull = Some ''app.log''"
    "files sampleFull ''app.log'' = Some ''0123456789''"
    "maxSize (f_options sampleFull) = Some 10"
    "currentSize sampleFull = 10"
    by (simp_all add: sampleFull_def shouldLog_def sampleFullDisk_def)
  show ?thesis
    unfolding FileTransport_log_def
    by (simp add: a sampleFull_line size_reached_def Let_def)
      (simp add: sampleFullWritten_def sampleFull_def sampleFullDisk_def)
qed

text \<open>
  Claim C6, at a failing input. The file \<^verbatim>\<open>app.log\<close> exists with 10 bytes and
  \<open>maxSize\<close> is 10. The constructor renames nothing: afterwards \<^verbatim>\<open>app.log\<close> still
  holds the 10 bytes, there is no \<^verbatim>\<open>app.1.log\<close>, and the tracked size is 10. The first
  write is appended to the old content; only then does the rotation run, and it moves the
  old content together with the new line to \<^verbatim>\<open>app.1.log\<close>.
\<close>

theorem C6_constructor_skips_rotation:
  "FileTransport_constructor sampleLib sampleFullDisk {} sampleFullOptions = Inr sampleFull
   \<and> sampleFullDisk ''app.log'' = Some ''0123456789''
   \<and> maxSize (f_options sampleFull) = Some 10
   \<and> currentSize sampleFull = 10
   \<and> files sampleFull ''app.log'' = Some ''0123456789''
   \<and> files sampleFull ''app.1.log'' = None
   \<and> fs_calls sampleFull = [CreateWriteStream ''app.log'']
   \<and> FileTransport_log sampleLib False sampleFull sampleEntry =
        returns (rotateFile sampleLib sampleFullWritten) sampleEntry
   \<and> files sampleFullWritten ''app.log'' = Some (''0123456789'' @ sampleLine)
   \<and> files (rotateFile sampleLib sampleFullWritten) ''app.1.log'' = Some (''0123456789'' @ sampleLine)
   \<and> files (rotateFile sampleLib sampleFullWritten) ''app.log'' = Some []"
proof -
  have st: "writeStream sampleFullWritten = Some ''app.log''"
    "path_extname sampleLib (currentFilePath sampleFullWritten) = ''.log''"
    "currentFilePath sampleFullWritten = ''app'' @ ''.log''"
    "files sampleFullWritten (currentFilePath sampleFullWritten) \<noteq> None"
    "5 = num_or (maxFiles (f_options sampleFullWritten)) 5"
    by (simp_all add: sampleFullWritten_def sampleFull_def sampleLib_def num_or_def)
  have ne: "''.log'' \<noteq> []"
    by simp
  note R = rotateFile_steps [OF st(1,2) ne st(3,4,5)]
  have n: "backupPath ''app'' 1 ''.log'' = ''app.1.log''"
    by (simp add: backupPath_def decimal_digit digit_char_def)
  have w: "files sampleFullWritten ''app.log'' = Some (''0123456789'' @ sampleLine)"
    by (simp add: sampleFullWritten_def)
  have f1: "files (rotateFile sampleLib sampleFullWritten) ''app.1.log'' =
      Some (''0123456789'' @ sampleLine)"
    using R(7) unfolding n by (simp add: w)
  have f0: "files (rotateFile sampleLib sampleFullWritten) ''app.log'' = Some []"
    using R(6) by simp
  have c: "sampleFullDisk ''app.log'' = Some ''0123456789''"
    "maxSize (f_options sampleFull) = Some 10" "currentSize sampleFull = 10"
    "files sampleFull ''app.log'' = Some ''0123456789''" "files sampleFull ''app.1.log'' = None"
    "fs_calls sampleFull = [CreateWriteStream ''app.log'']"
    by (simp_all add: sampleFull_def sampleFullDisk_def)
  show ?thesis
    using sampleFull_constructed sampleFull_first_write w f1 f0 c by simp
qed

text \<open>
  For an active path without an extension \<^verbatim>\<open>path.extname\<close> is empty and
  \<^verbatim>\<open>slice(0, -0)\<close> is the empty string, so the backups are named \<^verbatim>\<open>.1\<close>, \<^verbatim>\<open>.2\<close>, ...
  rather than after the active file.
\<close>

lemma rotation_without_extension:
  "path_extname (sampleLib\<lparr>path_extname := (\<lambda>p. [])\<rparr>) (currentFilePath sampleNoExtension) = []
   \<and> fs_calls (rotateFile (sampleLib\<lparr>path_extname := (\<lambda>p. [])\<rparr>) sampleNoExtension) =
        [StreamEnd ''app'', RenameSync ''app'' ''.1'', CreateWriteStream ''app'']
   \<and> files (rotateFile (sampleLib\<lparr>path_extname := (\<lambda>p. [])\<rparr>) sampleNoExtension) ''.1'' =
        Some ''content''
   \<and> files (rotateFile (sampleLib\<lparr>path_extname := (\<lambda>p. [])\<rparr>) sampleNoExtension) ''app.1'' = None"
  by (simp add: rotateFile_def renameOldFiles_def sampleNoExtension_def sampleLib_def slice0_def
      num_or_def backupPath_def decimal_digit digit_char_def existsSync_def renameSync_def
      createWriteStream_def Let_def)

section \<open>The entry is not mutated\<close>

lemma entry_after_simps:
  "entry_after (returns st entry) = entry"
  "entry_after (throws err st entry) = entry"
  "entry_after (map_call f r) = entry_after r"
  by (simp_all add: returns_def throws_def map_call_def)

lemma ConsoleTransport_log_entry: "entry_after (ConsoleTransport_log lib ct entry) = entry"
  by (simp add: ConsoleTransport_log_def entry_after_simps split: option.split console_format.split)

lemma FileTransport_log_entry: "entry_after (FileTransport_log lib werr ft entry) = entry"
  by (simp add: FileTransport_log_def entry_after_simps Let_def split: option.split)

lemma HttpTransport_log_entry: "entry_after (HttpTransport_log net ht entry) = entry"
  by (simp add: HttpTransport_log_def entry_after_simps Let_def)

lemma WebSocketTransport_log_entry: "entry_after (WebSocketTransport_log ok wt entry) = entry"
  by (simp add: WebSocketTransport_log_def entry_after_simps)

lemma Transport_log_entry: "entry_after (Transport_log w t entry) = entry"
  by (cases t)
    (simp_all add: entry_after_simps ConsoleTransport_log_entry FileTransport_log_entry
      HttpTransport_log_entry WebSocketTransport_log_entry)

lemma writeToTransports_each:
  "writeToTransports w ts entry =
     (map (\<lambda>t. transport_after (Transport_log w t entry)) ts, entry,
      concat (map (\<lambda>t. case thrown (Transport_log w t entry) of
                           None \<Rightarrow> [] | Some e \<Rightarrow> [''Transport write error:'']) ts))"
  by (induction ts) (simp_all add: Transport_log_entry Let_def)

text \<open>
  Claim C8. A call of \<^verbatim>\<open>log(entry)\<close> on any of the four transports, whatever branch it
  takes and whether it returns or throws, leaves the object passed as \<^verbatim>\<open>entry\<close> as it
  was: no branch assigns to a field of it. So the fan-out of the logger hands every
  transport of its list the entry as it was created, and the entry is the same after the
  fan-out.
\<close>

theorem C8_entry_unchanged:
  "entry_after (ConsoleTransport_log lib ct entry) = entry
   \<and> entry_after (FileTransport_log lib werr ft entry) = entry
   \<and> entry_after (HttpTransport_log net ht entry) = entry
   \<and> entry_after (WebSocketTransport_log ok wt entry) = entry
   \<and> entry_after (Transport_log w t entry) = entry
   \<and> writeToTransports w ts entry =
        (map (\<lambda>t. transport_after (Transport_log w t entry)) ts, entry,
         concat (map (\<lambda>t. case thrown (Transport_log w t entry) of
                              None \<Rightarrow> [] | Some e \<Rightarrow> [''Transport write error:'']) ts))"
  using ConsoleTransport_log_entry FileTransport_log_entry HttpTransport_log_entry
    WebSocketTransport_log_entry Transport_log_entry writeToTransports_each
  by (intro conjI)

theorem C8_entry_unchanged_witness:
  "entry_after (ConsoleTransport_log sampleLib sampleConsole (sampleError ''boom'')) = sampleError ''boom''
   \<and> console_log_output (transport_after
        (ConsoleTransport_log sampleLib sampleConsole (sampleError ''boom''))) =
        [''[2023-01-01T12:00:00.000Z] [ERROR] boom {user:test-user,}'']
   \<and> fst (snd (writeToTransports sampleWorld
        [Console sampleConsole, File sampleFile, Http sampleHttp, WebSocket sampleWs]
        (sampleError ''boom''))) = sampleError ''boom''
   \<and> length (fst (writeToTransports sampleWorld
        [Console sampleConsole, File sampleFile, Http sampleHttp, WebSocket sampleWs]
        (sampleError ''boom''))) = 4"
proof -
  have out: "console_log_output (transport_after
        (ConsoleTransport_log sampleLib sampleConsole (sampleError ''boom''))) =
        [''[2023-01-01T12:00:00.000Z] [ERROR] boom {user:test-user,}'']"
    by (simp add: ConsoleTransport_log_def sampleConsole_def ConsoleTransport_constructor_def
        shouldLog_ordinal sampleError_def sampleEntry_def with_default_def formatSimple_def
        truthy_bool_def append_meta_def sampleLib_def sample_stringify_meta_def append_stack_def
        truthy_str_def returns_def)
  show ?thesis
    using out
      C8_entry_unchanged [where lib = sampleLib and ct = sampleConsole and entry = "sampleError ''boom''"
        and w = sampleWorld
        and ts = "[Console sampleConsole, File sampleFile, Http sampleHttp, WebSocket sampleWs]"]
    by simp
qed

end
